theory Spec2Isabelle
  imports Complex_Main "HOL-Library.Multiset" "HOL-Library.List_Lexorder"
    "HOL-Library.Char_ord"
begin

section \<open>Values of the conversation export\<close>

text \<open>
  \<^verbatim>\<open>json.load\<close> yields Python values: \<^verbatim>\<open>None\<close>, booleans, integers, floats, strings,
  lists and dictionaries. A dictionary is kept as the list of its items in insertion
  order, each key once, which is the order \<^verbatim>\<open>values()\<close> iterates in; \<^verbatim>\<open>get\<close> looks a
  key up in it.
  Strings are ASCII text, one \<^typ>\<open>char\<close> per character.
\<close>

datatype json =
    JNull
  | JBool bool
  | JInt int
  | JFloat real
  | JStr string
  | JArr "json list"
  | JObj "(string \<times> json) list"

text \<open>
  The exceptions the analysed functions can end in. \<open>EmptyCorpus\<close> is the failure of the
  vector-space builder on an empty document set.
\<close>

datatype error = AttributeError | TypeError | IndexError | EmptyCorpus

text \<open>Truth value of a Python object, as \<^verbatim>\<open>if message\<close> and \<^verbatim>\<open>and content_parts\<close> test it.\<close>

fun truthy :: "json \<Rightarrow> bool" where
  "truthy JNull = False"
| "truthy (JBool b) = b"
| "truthy (JInt i) = (i \<noteq> 0)"
| "truthy (JFloat r) = (r \<noteq> 0)"
| "truthy (JStr s) = (s \<noteq> [])"
| "truthy (JArr xs) = (xs \<noteq> [])"
| "truthy (JObj kvs) = (kvs \<noteq> [])"

text \<open>
  \<^verbatim>\<open>d.get(key, default)\<close>: only a dictionary has the method; on any other value the
  attribute lookup raises.
\<close>

fun py_get :: "json \<Rightarrow> string \<Rightarrow> json \<Rightarrow> error + json" where
  "py_get (JObj kvs) k dflt = (case map_of kvs k of None \<Rightarrow> Inr dflt | Some v \<Rightarrow> Inr v)"
| "py_get _ k dflt = Inl AttributeError"

text \<open>\<^verbatim>\<open>d.values()\<close>.\<close>

fun py_values :: "json \<Rightarrow> error + json list" where
  "py_values (JObj kvs) = Inr (map snd kvs)"
| "py_values _ = Inl AttributeError"

text \<open>
  \<^verbatim>\<open>for x in v\<close>: a list yields its elements, a dictionary its keys, a string its
  characters; nothing else is iterable.
\<close>

fun py_iter :: "json \<Rightarrow> error + json list" where
  "py_iter (JArr xs) = Inr xs"
| "py_iter (JObj kvs) = Inr (map (\<lambda>kv. JStr (fst kv)) kvs)"
| "py_iter (JStr s) = Inr (map (\<lambda>c. JStr [c]) s)"
| "py_iter _ = Inl TypeError"

section \<open>Message Extractor\<close>

text \<open>
  \<^verbatim>\<open>extract_user_messages\<close> is the same text in \<^verbatim>\<open>parse.py\<close> and \<^verbatim>\<open>parse3.py\<close>.
  \<open>node_step\<close> is the body of the inner loop: it takes the list \<^verbatim>\<open>user_messages\<close> built
  so far and returns it, extended or not, or the exception that ends the call.
\<close>

definition node_step :: "json \<Rightarrow> json list \<Rightarrow> error + json list" where
  "node_step node user_messages =
     (case py_get node ''message'' JNull of
        Inl e \<Rightarrow> Inl e
      | Inr message \<Rightarrow>
          if \<not> truthy message then Inr user_messages
          else
            (case py_get message ''author'' (JObj []) of
               Inl e \<Rightarrow> Inl e
             | Inr author \<Rightarrow>
                 (case py_get author ''role'' JNull of
                    Inl e \<Rightarrow> Inl e
                  | Inr role \<Rightarrow>
                      if role \<noteq> JStr ''user'' then Inr user_messages
                      else
                        (case py_get message ''content'' (JObj []) of
                           Inl e \<Rightarrow> Inl e
                         | Inr content \<Rightarrow>
                             (case py_get content ''parts'' (JArr []) of
                                Inl e \<Rightarrow> Inl e
                              | Inr content_parts \<Rightarrow>
                                  (case content_parts of
                                     JArr (p # ps) \<Rightarrow> Inr (user_messages @ [p])
                                   | _ \<Rightarrow> Inr user_messages))))))"

fun nodes_loop :: "json list \<Rightarrow> json list \<Rightarrow> error + json list" where
  "nodes_loop [] user_messages = Inr user_messages"
| "nodes_loop (node # nodes) user_messages =
     (case node_step node user_messages of
        Inl e \<Rightarrow> Inl e
      | Inr user_messages' \<Rightarrow> nodes_loop nodes user_messages')"

definition conversation_step :: "json \<Rightarrow> json list \<Rightarrow> error + json list" where
  "conversation_step conversation user_messages =
     (case py_get conversation ''mapping'' (JObj []) of
        Inl e \<Rightarrow> Inl e
      | Inr mapping \<Rightarrow>
          (case py_values mapping of
             Inl e \<Rightarrow> Inl e
           | Inr nodes \<Rightarrow> nodes_loop nodes user_messages))"

fun conversations_loop :: "json list \<Rightarrow> json list \<Rightarrow> error + json list" where
  "conversations_loop [] user_messages = Inr user_messages"
| "conversations_loop (conversation # rest) user_messages =
     (case conversation_step conversation user_messages of
        Inl e \<Rightarrow> Inl e
      | Inr user_messages' \<Rightarrow> conversations_loop rest user_messages')"

definition extract_user_messages :: "json \<Rightarrow> error + json list" where
  "extract_user_messages conversations =
     (case py_iter conversations of
        Inl e \<Rightarrow> Inl e
      | Inr cs \<Rightarrow> conversations_loop cs [])"

subsection \<open>The extractor as the specification words it\<close>

text \<open>
  A field of a record in the data model: present with a value, or absent. A value that
  is no dictionary has no fields.
\<close>

fun get_field :: "json \<Rightarrow> string \<Rightarrow> json option" where
  "get_field (JObj kvs) k = map_of kvs k"
| "get_field _ k = None"

text \<open>
  What a node contributes: \<^verbatim>\<open>content.parts[0]\<close> when the node holds a message whose
  author role is \<^verbatim>\<open>"user"\<close> and whose \<^verbatim>\<open>parts\<close> is a non-empty list; nothing otherwise.
\<close>

definition spec_first_part :: "json \<Rightarrow> json option" where
  "spec_first_part node =
     (case get_field node ''message'' of
        None \<Rightarrow> None
      | Some message \<Rightarrow>
          (case get_field message ''author'' of
             None \<Rightarrow> None
           | Some author \<Rightarrow>
               if get_field author ''role'' = Some (JStr ''user'') then
                 (case get_field message ''content'' of
                    None \<Rightarrow> None
                  | Some content \<Rightarrow>
                      (case get_field content ''parts'' of
                         Some (JArr (p # ps)) \<Rightarrow> Some p
                       | _ \<Rightarrow> None))
               else None))"

text \<open>The nodes of a conversation, in the order of its mapping; none without a mapping.\<close>

definition spec_nodes :: "json \<Rightarrow> json list" where
  "spec_nodes conversation =
     (case get_field conversation ''mapping'' of
        Some (JObj kvs) \<Rightarrow> map snd kvs
      | _ \<Rightarrow> [])"

definition spec_extract :: "json list \<Rightarrow> json list" where
  "spec_extract cs = concat (map (\<lambda>c. List.map_filter spec_first_part (spec_nodes c)) cs)"

text \<open>
  The shape the extractor relies on: every value it calls \<^verbatim>\<open>get\<close> or \<^verbatim>\<open>values\<close> on is a
  dictionary. A field may be absent; a message may also be any false value
  (\<^verbatim>\<open>null\<close> in the export), which the truth test skips.
\<close>

definition is_obj :: "json \<Rightarrow> bool" where
  "is_obj v = (case v of JObj kvs \<Rightarrow> True | _ \<Rightarrow> False)"

definition field_is_obj :: "json \<Rightarrow> string \<Rightarrow> bool" where
  "field_is_obj v k = (case get_field v k of None \<Rightarrow> True | Some w \<Rightarrow> is_obj w)"

definition shaped_message :: "json \<Rightarrow> bool" where
  "shaped_message message =
     (\<not> truthy message \<or>
      (is_obj message \<and> field_is_obj message ''author'' \<and> field_is_obj message ''content''))"

definition shaped_node :: "json \<Rightarrow> bool" where
  "shaped_node node =
     (is_obj node \<and>
      (case get_field node ''message'' of None \<Rightarrow> True | Some message \<Rightarrow> shaped_message message))"

definition shaped_conversation :: "json \<Rightarrow> bool" where
  "shaped_conversation conversation =
     (is_obj conversation \<and> field_is_obj conversation ''mapping'' \<and>
      list_all shaped_node (spec_nodes conversation))"

section \<open>Strings\<close>

text \<open>
  The whitespace of \<^verbatim>\<open>str.split()\<close> and \<^verbatim>\<open>str.strip()\<close> within ASCII: tab, line feed,
  vertical tab, form feed, carriage return, the four separators \<^verbatim>\<open>0x1c\<close> to \<^verbatim>\<open>0x1f\<close>
  and the space.
\<close>

definition is_space :: "char \<Rightarrow> bool" where
  "is_space c =
     (c \<in> set [CHR 0x09, CHR 0x0A, CHR 0x0B, CHR 0x0C, CHR 0x0D,
               CHR 0x1C, CHR 0x1D, CHR 0x1E, CHR 0x1F, CHR '' ''])"

definition upper_letters :: string where
  "upper_letters = ''ABCDEFGHIJKLMNOPQRSTUVWXYZ''"

definition lower_letters :: string where
  "lower_letters = ''abcdefghijklmnopqrstuvwxyz''"

text \<open>The class \<^verbatim>\<open>[a-zA-Z]\<close> of the cleaning pattern.\<close>

definition is_alpha :: "char \<Rightarrow> bool" where
  "is_alpha c = (c \<in> set (lower_letters @ upper_letters))"

definition char_lower :: "char \<Rightarrow> char" where
  "char_lower c = (case map_of (zip upper_letters lower_letters) c of None \<Rightarrow> c | Some d \<Rightarrow> d)"

text \<open>\<^verbatim>\<open>s.lower()\<close>.\<close>

definition str_lower :: "string \<Rightarrow> string" where
  "str_lower s = map char_lower s"

text \<open>
  \<^verbatim>\<open>s.split()\<close>: the maximal runs of non-whitespace characters, in order. \<open>cur\<close> is
  the run being read.
\<close>

fun split_from :: "string \<Rightarrow> string \<Rightarrow> string list" where
  "split_from cur [] = (if cur = [] then [] else [cur])"
| "split_from cur (c # cs) =
     (if is_space c then (if cur = [] then split_from [] cs else cur # split_from [] cs)
      else split_from (cur @ [c]) cs)"

definition str_split :: "string \<Rightarrow> string list" where
  "str_split s = split_from [] s"

text \<open>\<^verbatim>\<open>s.strip()\<close> and \<^verbatim>\<open>s.endswith('?')\<close>.\<close>

definition str_strip :: "string \<Rightarrow> string" where
  "str_strip s = rev (dropWhile is_space (rev (dropWhile is_space s)))"

definition ends_with_qmark :: "string \<Rightarrow> bool" where
  "ends_with_qmark s = (s \<noteq> [] \<and> last s = CHR ''?'')"

text \<open>\<^verbatim>\<open>[m for m in messages if isinstance(m, str)]\<close>.\<close>

fun str_messages :: "json list \<Rightarrow> string list" where
  "str_messages [] = []"
| "str_messages (JStr s # ms) = s # str_messages ms"
| "str_messages (m # ms) = str_messages ms"

section \<open>Frequency Analyzer\<close>

definition top_english_words :: "string list" where
  "top_english_words =
    [''the'', ''be'', ''to'', ''of'', ''and'', ''a'', ''in'', ''that'', ''have'', ''I'', ''it'', ''for'',
     ''not'', ''on'', ''with'', ''he'', ''as'', ''you'', ''do'', ''at'', ''this'', ''but'', ''his'',
     ''by'', ''from'', ''they'', ''we'', ''say'', ''her'', ''she'', ''or'', ''an'', ''will'', ''my'',
     ''one'', ''all'', ''would'', ''there'', ''their'', ''what'', ''so'', ''up'', ''out'', ''if'',
     ''about'', ''who'', ''get'', ''which'', ''go'', ''me'', ''when'', ''make'', ''can'', ''like'',
     ''time'', ''no'', ''just'', ''him'', ''know'', ''take'', ''people'', ''into'', ''year'',
     ''your'', ''good'', ''some'', ''could'', ''them'', ''see'', ''other'', ''than'', ''then'',
     ''now'', ''look'', ''only'', ''come'', ''its'', ''over'', ''think'', ''also'', ''back'',
     ''after'', ''use'', ''two'', ''how'', ''our'', ''work'', ''first'', ''well'', ''way'', ''even'',
     ''new'', ''want'', ''because'', ''any'', ''these'', ''give'', ''day'', ''most'', ''us'']"

text \<open>
  \<^verbatim>\<open>clean_and_filter_words\<close> of \<^verbatim>\<open>parse3.py\<close>: the loop appends to \<^verbatim>\<open>filtered_words\<close>.
\<close>

fun clean_loop :: "string list \<Rightarrow> string list \<Rightarrow> string list" where
  "clean_loop [] filtered_words = filtered_words"
| "clean_loop (word # words) filtered_words =
     (let clean_word = str_lower (filter is_alpha word)
      in if length clean_word > 1 \<and> clean_word \<notin> set top_english_words
         then clean_loop words (filtered_words @ [clean_word])
         else clean_loop words filtered_words)"

definition clean_and_filter_words :: "string list \<Rightarrow> string list" where
  "clean_and_filter_words words = clean_loop words []"

text \<open>
  \<^verbatim>\<open>Counter(words)\<close>: a dictionary from token to count, in the order the tokens were
  first met. Counting a token again changes its count where it stands.
\<close>

fun counter_add :: "('a \<times> nat) list \<Rightarrow> 'a \<Rightarrow> ('a \<times> nat) list" where
  "counter_add [] w = [(w, 1)]"
| "counter_add ((k, c) # kcs) w =
     (if k = w then (k, c + 1) # kcs else (k, c) # counter_add kcs w)"

definition counter :: "'a list \<Rightarrow> ('a \<times> nat) list" where
  "counter words = fold (\<lambda>w d. counter_add d w) words []"

text \<open>
  \<^verbatim>\<open>most_common(n)\<close> is \<^verbatim>\<open>heapq.nlargest(n, items, key=count)\<close>, that is
  \<^verbatim>\<open>sorted(items, key=count, reverse=True)[:n]\<close>: a stable sort by falling count, so
  items of equal count keep the order of the dictionary; nothing for \<open>n \<le> 0\<close>.
\<close>

definition most_common :: "int \<Rightarrow> ('a \<times> nat) list \<Rightarrow> ('a \<times> nat) list" where
  "most_common n items = take (nat n) (sort_key (\<lambda>kc. - int (snd kc)) items)"

text \<open>
  \<^verbatim>\<open>common_words_analysis\<close> of \<^verbatim>\<open>parse3.py\<close>; the value is the list stored under
  \<^verbatim>\<open>"common_words"\<close>.
\<close>

definition common_words_analysis3 :: "json list \<Rightarrow> int \<Rightarrow> bool \<Rightarrow> (string \<times> nat) list" where
  "common_words_analysis3 messages top_n filter_english =
     (let words = concat (map str_split (str_messages messages));
          words = (if filter_english then clean_and_filter_words words else words)
      in most_common top_n (counter words))"

text \<open>
  \<^verbatim>\<open>common_words_analysis\<close> of \<^verbatim>\<open>parse.py\<close>; the value is the list it prints.
\<close>

definition common_words_analysis :: "json list \<Rightarrow> int \<Rightarrow> bool \<Rightarrow> (string \<times> nat) list" where
  "common_words_analysis messages top_n filter_english =
     (let words = concat (map (\<lambda>message. str_split (str_lower message)) (str_messages messages));
          words = (if filter_english then filter (\<lambda>word. word \<notin> set top_english_words) words
                   else words)
      in most_common top_n (counter words))"

subsection \<open>The ranking as the specification words it\<close>

text \<open>The position at which a token is first met in the token sequence.\<close>

definition first_pos :: "'a list \<Rightarrow> 'a \<Rightarrow> nat" where
  "first_pos ws w = length (takeWhile (\<lambda>x. x \<noteq> w) ws)"

text \<open>
  One (token, count) pair ranks before another when its count is greater, or the counts
  are equal and its token was met first.
\<close>

definition ranks_before :: "'a list \<Rightarrow> 'a \<times> nat \<Rightarrow> 'a \<times> nat \<Rightarrow> bool" where
  "ranks_before ws a b =
     (snd a > snd b \<or> (snd a = snd b \<and> first_pos ws (fst a) < first_pos ws (fst b)))"

text \<open>
  The full ranking of a token sequence: every token once, paired with the number of
  its occurrences, in ranking order.
\<close>

definition spec_ranking :: "'a list \<Rightarrow> ('a \<times> nat) list \<Rightarrow> bool" where
  "spec_ranking ws ranked =
     (set ranked = (\<lambda>w. (w, count_list ws w)) ` set ws \<and>
      distinct (map fst ranked) \<and>
      sorted_wrt (ranks_before ws) ranked)"

text \<open>The tokens of a sequence in the order they are first met.\<close>

definition first_occs :: "'a list \<Rightarrow> 'a list" where
  "first_occs ws = rev (remdups (rev ws))"

section \<open>Topic Model\<close>

text \<open>
  \<^verbatim>\<open>a.argsort()\<close> is the library's and a parameter of the analysis. What it promises
  of a row: its result holds every index of the row once, in an order that sorts the
  row, least weight first. The order among equal weights is left open, as the library's
  default sort leaves it.
\<close>

definition sorts_row :: "(real list \<Rightarrow> nat list) \<Rightarrow> real list \<Rightarrow> bool" where
  "sorts_row argsort topic =
     (distinct (argsort topic) \<and> set (argsort topic) = {..<length topic} \<and>
      sorted_wrt (\<lambda>a b. topic ! a \<le> topic ! b) (argsort topic))"

text \<open>
  An argsort that keeps equal weights in index order, which is what the library's sort
  does on a row of a few entries (it sorts short ranges by insertion).
\<close>

definition stable_argsort :: "real list \<Rightarrow> nat list" where
  "stable_argsort topic = sort_key (\<lambda>i. topic ! i) [0..<length topic]"

text \<open>
  The slice \<^verbatim>\<open>a[:stop:-1]\<close>: from the last element backwards, down to but not
  including index \<open>stop\<close>; a negative \<open>stop\<close> counts from the end, and is cut off at the
  ends of the list.
\<close>

definition slice_back :: "'a list \<Rightarrow> int \<Rightarrow> 'a list" where
  "slice_back a stop =
     (let n = int (length a);
          s = (if stop < 0 then max (stop + n) (- 1) else min stop (n - 1))
      in take (nat (n - 1 - s)) (rev a))"

text \<open>\<^verbatim>\<open>[words[i] for i in idxs]\<close>: an index past the end raises.\<close>

fun index_all :: "'a list \<Rightarrow> nat list \<Rightarrow> error + 'a list" where
  "index_all words [] = Inr []"
| "index_all words (i # idxs) =
     (if i < length words
      then (case index_all words idxs of Inl e \<Rightarrow> Inl e | Inr ts \<Rightarrow> Inr (words ! i # ts))
      else Inl IndexError)"

text \<open>\<^verbatim>\<open>[words[i] for i in topic.argsort()[:-top_words-1:-1]]\<close>.\<close>

definition top_words_list ::
  "(real list \<Rightarrow> nat list) \<Rightarrow> string list \<Rightarrow> real list \<Rightarrow> int \<Rightarrow> error + string list" where
  "top_words_list argsort words topic top_words =
     index_all words (slice_back (argsort topic) (- top_words - 1))"

text \<open>The decimal digits of a number, as an f-string prints it.\<close>

fun str_nat :: "nat \<Rightarrow> string" where
  "str_nat n =
     (if n < 10 then [''0123456789'' ! n]
      else str_nat (n div 10) @ [''0123456789'' ! (n mod 10)])"

declare str_nat.simps [simp del]

text \<open>\<^verbatim>\<open>d[key] = value\<close>: a key already there keeps its place.\<close>

fun dict_set :: "('k \<times> 'v) list \<Rightarrow> 'k \<Rightarrow> 'v \<Rightarrow> ('k \<times> 'v) list" where
  "dict_set [] key v = [(key, v)]"
| "dict_set ((k, w) # kvs) key v =
     (if k = key then (k, v) # kvs else (k, w) # dict_set kvs key v)"

text \<open>The key \<^verbatim>\<open>f"Topic {topic_idx}"\<close>.\<close>

definition topic_key :: "nat \<Rightarrow> string" where
  "topic_key topic_idx = ''Topic '' @ str_nat topic_idx"

text \<open>The loop over \<^verbatim>\<open>enumerate(lda.components_)\<close>, filling \<^verbatim>\<open>topics\<close>.\<close>

fun topics_loop ::
  "(real list \<Rightarrow> nat list) \<Rightarrow> string list \<Rightarrow> int \<Rightarrow> nat \<Rightarrow> real list list \<Rightarrow>
   (string \<times> string list) list \<Rightarrow> error + (string \<times> string list) list" where
  "topics_loop argsort words top_words topic_idx [] topics = Inr topics"
| "topics_loop argsort words top_words topic_idx (topic # rest) topics =
     (case top_words_list argsort words topic top_words of
        Inl e \<Rightarrow> Inl e
      | Inr l \<Rightarrow>
          topics_loop argsort words top_words (topic_idx + 1) rest
            (dict_set topics (topic_key topic_idx) l))"

text \<open>
  \<^verbatim>\<open>topic_modeling_analysis\<close> of \<^verbatim>\<open>parse3.py\<close>; \<^verbatim>\<open>parse.py\<close> prints the same lists
  instead of storing them. The library is a parameter:
  \<open>fit_tfidf\<close> is the fitted TF-IDF vectorizer, giving the document-term matrix and the
  feature names; \<open>lda_fit\<close> is the fit of the topic model with its fixed seed, giving
  \<^verbatim>\<open>components_\<close>, one row of weights per topic; either may raise. \<open>argsort\<close> is the
  sort of a row's indices.
\<close>

definition topic_modeling_analysis ::
  "(string list \<Rightarrow> error + 'm \<times> string list) \<Rightarrow> (int \<Rightarrow> 'm \<Rightarrow> error + real list list) \<Rightarrow>
   (real list \<Rightarrow> nat list) \<Rightarrow> json list \<Rightarrow> int \<Rightarrow> int \<Rightarrow>
   error + (string \<times> string list) list" where
  "topic_modeling_analysis fit_tfidf lda_fit argsort messages num_topics top_words =
     (case fit_tfidf (str_messages messages) of
        Inl e \<Rightarrow> Inl e
      | Inr (tfidf_matrix, words) \<Rightarrow>
          (case lda_fit num_topics tfidf_matrix of
             Inl e \<Rightarrow> Inl e
           | Inr components \<Rightarrow> topics_loop argsort words top_words 0 components []))"

subsection \<open>The topic terms as the specification words them\<close>

text \<open>
  The terms listed for a topic: the words at \<open>n\<close> distinct vocabulary indices (all of
  them when the vocabulary is smaller), in falling weight order, no index left out
  having a greater weight than a listed one.
\<close>

definition spec_top_terms :: "string list \<Rightarrow> real list \<Rightarrow> nat \<Rightarrow> string list \<Rightarrow> bool" where
  "spec_top_terms words topic n terms =
     (\<exists>idxs. terms = map (\<lambda>i. words ! i) idxs \<and>
        distinct idxs \<and> set idxs \<subseteq> {..<length topic} \<and>
        length idxs = min n (length topic) \<and>
        sorted_wrt (\<lambda>a b. topic ! a \<ge> topic ! b) idxs \<and>
        (\<forall>j < length topic. j \<notin> set idxs \<longrightarrow> (\<forall>a \<in> set idxs. topic ! j \<le> topic ! a)))"

text \<open>
  Falling weight with ties broken by vocabulary index order: greater weight first, and
  among equal weights the lower vocabulary index first.
\<close>

definition ranks_first :: "real list \<Rightarrow> nat \<Rightarrow> nat \<Rightarrow> bool" where
  "ranks_first topic a b = (topic ! a > topic ! b \<or> (topic ! a = topic ! b \<and> a < b))"

text \<open>The terms of a topic listed in that order.\<close>

definition claimed_top_terms :: "string list \<Rightarrow> real list \<Rightarrow> nat \<Rightarrow> string list \<Rightarrow> bool" where
  "claimed_top_terms words topic n terms =
     (\<exists>idxs. terms = map (\<lambda>i. words ! i) idxs \<and>
        set idxs \<subseteq> {..<length topic} \<and>
        length idxs = min n (length topic) \<and>
        sorted_wrt (ranks_first topic) idxs)"

text \<open>The number a string of decimal digits stands for.\<close>

definition nat_of_str :: "string \<Rightarrow> nat" where
  "nat_of_str s = foldl (\<lambda>n c. 10 * n + first_pos ''0123456789'' c) 0 s"

section \<open>Similarity Detector\<close>

text \<open>\<^verbatim>\<open>[msg for msg in messages if isinstance(msg, str) and msg.strip().endswith('?')]\<close>.\<close>

definition questions :: "json list \<Rightarrow> string list" where
  "questions messages =
     filter (\<lambda>msg. ends_with_qmark (str_strip msg)) (str_messages messages)"

text \<open>
  The comprehension over \<^verbatim>\<open>i in range(len(questions))\<close> and
  \<^verbatim>\<open>j in range(i + 1, len(questions))\<close>, keeping the pairs whose entry of the matrix
  is above the threshold.
\<close>

definition similar_questions ::
  "(nat \<Rightarrow> nat \<Rightarrow> real) \<Rightarrow> string list \<Rightarrow> real \<Rightarrow> (string \<times> string) list" where
  "similar_questions similarity_matrix qs similarity_threshold =
     concat (map (\<lambda>i.
       concat (map (\<lambda>j.
         if similarity_matrix i j > similarity_threshold then [(qs ! i, qs ! j)] else [])
         [i + 1..<length qs]))
       [0..<length qs])"

text \<open>
  \<^verbatim>\<open>question_rephrasing_analysis\<close>, the same in both files; the value is the list
  stored under \<^verbatim>\<open>"similar_questions"\<close> (printed, in \<^verbatim>\<open>parse.py\<close>).
  The library is a parameter: \<open>fit_transform\<close> builds the count vectors and may raise,
  \<open>cosine_similarity\<close> gives the matrix of pairwise similarities.
\<close>

definition question_rephrasing_analysis ::
  "(string list \<Rightarrow> error + 'm) \<Rightarrow> ('m \<Rightarrow> nat \<Rightarrow> nat \<Rightarrow> real) \<Rightarrow>
   json list \<Rightarrow> real \<Rightarrow> error + (string \<times> string) list" where
  "question_rephrasing_analysis fit_transform cosine_similarity messages similarity_threshold =
     (let qs = questions messages
      in case fit_transform qs of
           Inl e \<Rightarrow> Inl e
         | Inr vectorizer \<Rightarrow>
             Inr (take 5 (similar_questions (cosine_similarity vectorizer) qs
                            similarity_threshold)))"

subsection \<open>The vector-space builder and the cosine\<close>

text \<open>
  The word characters \<^verbatim>\<open>\w\<close> of the library's token pattern within ASCII: letters,
  digits and the underscore.
\<close>

definition is_word_char :: "char \<Rightarrow> bool" where
  "is_word_char c = (c \<in> set (lower_letters @ upper_letters @ ''0123456789_''))"

text \<open>The maximal runs of word characters, in order. \<open>cur\<close> is the run being read.\<close>

fun word_runs :: "string \<Rightarrow> string \<Rightarrow> string list" where
  "word_runs cur [] = (if cur = [] then [] else [cur])"
| "word_runs cur (c # cs) =
     (if is_word_char c then word_runs (cur @ [c]) cs
      else (if cur = [] then word_runs [] cs else cur # word_runs [] cs))"

text \<open>
  The tokens of a document under the library's default analyzer: the document is
  lowercased and its tokens are the matches of \<^verbatim>\<open>\b\w\w+\b\<close>, the runs of two or more
  word characters.
\<close>

definition word_tokens :: "string \<Rightarrow> string list" where
  "word_tokens doc = filter (\<lambda>w. 2 \<le> length w) (word_runs [] (str_lower doc))"

text \<open>
  Modelled from the spec: the count-vector builder (the library's
  \<^verbatim>\<open>CountVectorizer().fit_transform\<close>, whose code is not part of the repository). One
  integer vector per document over a vocabulary derived from the corpus, all tokens
  appearing, no cap; the vocabulary is built once from the full input set. Where the
  spec leaves the library's behaviour open, the model follows the library with its
  default settings: the tokens are those of \<open>word_tokens\<close>, the columns are the tokens
  in sorted order, and the building fails, with the library's \<^verbatim>\<open>ValueError\<close>, here
  \<open>EmptyCorpus\<close>, when the vocabulary is empty: on an empty input set, and also on
  documents that hold no token.
\<close>

definition count_vectors :: "string list \<Rightarrow> error + nat list list" where
  "count_vectors raw_documents =
     (let vocabulary = sort (remdups (concat (map word_tokens raw_documents)))
      in if vocabulary = [] then Inl EmptyCorpus
         else Inr (map (\<lambda>doc. map (count_list (word_tokens doc)) vocabulary) raw_documents))"

text \<open>
  Modelled from the spec: cosine similarity (the library's \<^verbatim>\<open>cosine_similarity\<close>), the
  normalized dot product of two vectors, over the reals. A zero vector has
  similarity 0 to every vector. The library computes in 64-bit floating point, whose
  rounding is not part of this definition: the properties below take the library's
  similarity as a parameter, and this one is evaluated only on sample vectors where
  the floating-point value is the same (equal vectors of a single 1) or is far from the
  threshold it is compared with.
\<close>

definition dot :: "nat list \<Rightarrow> nat list \<Rightarrow> real" where
  "dot u v = sum_list (map (\<lambda>(a, b). real a * real b) (zip u v))"

definition cosine :: "nat list \<Rightarrow> nat list \<Rightarrow> real" where
  "cosine u v =
     (if dot u u = 0 \<or> dot v v = 0 then 0
      else dot u v / (sqrt (dot u u) * sqrt (dot v v)))"

definition cosine_similarity :: "nat list list \<Rightarrow> nat \<Rightarrow> nat \<Rightarrow> real" where
  "cosine_similarity X i j = cosine (X ! i) (X ! j)"

subsection \<open>The emitted pairs as the specification words them\<close>



text \<open>The index pairs of the rows below \<open>m\<close>, as the comprehension enumerates them.\<close>

definition index_pairs :: "(nat \<Rightarrow> nat \<Rightarrow> real) \<Rightarrow> nat \<Rightarrow> real \<Rightarrow> nat \<Rightarrow> (nat \<times> nat) list" where
  "index_pairs sim n t m =
     concat (map (\<lambda>i. map (Pair i) (filter (\<lambda>j. sim i j > t) [i + 1..<n])) [0..<m])"

section \<open>The run of the requested analyses\<close>

text \<open>
  The command-line arguments of \<^verbatim>\<open>parse3.py\<close> that select and tune the analyses.
  \<^verbatim>\<open>--print-english-words\<close> is absent or a number.
\<close>

record args =
  arg_common_words :: bool
  arg_topic_modeling :: bool
  arg_rephrasing :: bool
  arg_print_english_words :: "int option"
  arg_filter_english_words :: bool
  arg_top_n :: int
  arg_num_topics :: int
  arg_top_words :: int
  arg_similarity_threshold :: real

text \<open>The values stored in \<^verbatim>\<open>results\<close>, one kind per analysis.\<close>

datatype result =
    EnglishWords "string list"
  | CommonWords "(string \<times> nat) list"
  | TopicTerms "string list"
  | SimilarQuestions "(string \<times> string) list"

text \<open>\<^verbatim>\<open>xs[:stop]\<close>: a negative \<open>stop\<close> counts from the end.\<close>

definition slice_to :: "'a list \<Rightarrow> int \<Rightarrow> 'a list" where
  "slice_to xs stop = take (nat (if stop < 0 then int (length xs) + stop else stop)) xs"

text \<open>\<^verbatim>\<open>print_english_words\<close> of \<^verbatim>\<open>parse3.py\<close>; the value is the list it returns.\<close>

definition print_english_words :: "int \<Rightarrow> string list" where
  "print_english_words cnt = slice_to top_english_words cnt"

text \<open>\<^verbatim>\<open>results.update(d)\<close>.\<close>

definition dict_update :: "('k \<times> 'v) list \<Rightarrow> ('k \<times> 'v) list \<Rightarrow> ('k \<times> 'v) list" where
  "dict_update results d = fold (\<lambda>kv r. dict_set r (fst kv) (snd kv)) d results"

text \<open>
  The flags after the default: when none of the four is set, the three analyses are
  switched on.
\<close>

definition requested :: "args \<Rightarrow> args" where
  "requested a =
     (if \<not> (arg_common_words a \<or> arg_topic_modeling a \<or> arg_rephrasing a \<or>
             (case arg_print_english_words a of None \<Rightarrow> False | Some cnt \<Rightarrow> cnt \<noteq> 0))
      then a\<lparr>arg_common_words := True, arg_topic_modeling := True, arg_rephrasing := True\<rparr>
      else a)"

text \<open>
  The statements of the main block that collect the results of the word list, the
  common words and the topics, in this order. An exception of the topic model ends
  the run.
\<close>

definition earlier_analyses ::
  "(string list \<Rightarrow> error + 'm \<times> string list) \<Rightarrow> (int \<Rightarrow> 'm \<Rightarrow> error + real list list) \<Rightarrow>
   (real list \<Rightarrow> nat list) \<Rightarrow> args \<Rightarrow> json list \<Rightarrow> error + (string \<times> result) list" where
  "earlier_analyses fit_tfidf lda_fit argsort a user_messages =
     (let results = [];
          results =
            (case arg_print_english_words a of
               None \<Rightarrow> results
             | Some cnt \<Rightarrow>
                 if cnt \<noteq> 0
                 then dict_update results
                        [(''top_english_words'', EnglishWords (print_english_words cnt))]
                 else results);
          results =
            (if arg_common_words a
             then dict_update results
                    [(''common_words'',
                      CommonWords (common_words_analysis3 user_messages (arg_top_n a)
                                     (arg_filter_english_words a)))]
             else results)
      in if arg_topic_modeling a
         then (case topic_modeling_analysis fit_tfidf lda_fit argsort user_messages
                      (arg_num_topics a) (arg_top_words a) of
                 Inl e \<Rightarrow> Inl e
               | Inr topics \<Rightarrow>
                   Inr (dict_update results (map (\<lambda>kv. (fst kv, TopicTerms (snd kv))) topics)))
         else Inr results)"

text \<open>
  The main block of \<^verbatim>\<open>parse3.py\<close> from the extracted messages to the collected
  \<^verbatim>\<open>results\<close>, which are formatted and printed afterwards. The rephrasing analysis
  comes last; no statement catches an exception, so one raised by any analysis ends
  the run before anything is printed.
\<close>

definition run_analyses ::
  "(string list \<Rightarrow> error + 'm \<times> string list) \<Rightarrow> (int \<Rightarrow> 'm \<Rightarrow> error + real list list) \<Rightarrow>
   (real list \<Rightarrow> nat list) \<Rightarrow>
   (string list \<Rightarrow> error + 'v) \<Rightarrow> ('v \<Rightarrow> nat \<Rightarrow> nat \<Rightarrow> real) \<Rightarrow>
   args \<Rightarrow> json list \<Rightarrow> error + (string \<times> result) list" where
  "run_analyses fit_tfidf lda_fit argsort fit_transform cosine_sim a0 user_messages =
     (let a = requested a0
      in case earlier_analyses fit_tfidf lda_fit argsort a user_messages of
           Inl e \<Rightarrow> Inl e
         | Inr results \<Rightarrow>
             if arg_rephrasing a
             then (case question_rephrasing_analysis fit_transform cosine_sim user_messages
                          (arg_similarity_threshold a) of
                     Inl e \<Rightarrow> Inl e
                   | Inr similar \<Rightarrow>
                       Inr (dict_update results
                              [(''similar_questions'', SimilarQuestions similar)]))
             else Inr results)"

section \<open>Sample inputs\<close>

text \<open>
  An export of three conversations. The first has a node without a message, a message
  that is \<^verbatim>\<open>null\<close>, user messages with two parts, with no part, with no content, a
  message of the assistant and a message without author; the second has no mapping;
  in the third a user message has a string for its parts.
\<close>

definition sample_export :: "json list" where
  "sample_export =
     [JObj [(''title'', JStr ''t''),
            (''mapping'', JObj
              [(''n0'', JObj [(''message'', JNull)]),
               (''n1'', JObj [(''message'', JObj
                  [(''author'', JObj [(''role'', JStr ''user'')]),
                   (''content'', JObj [(''parts'', JArr [JStr ''a'', JStr ''b''])])])]),
               (''n2'', JObj [(''message'', JObj
                  [(''author'', JObj [(''role'', JStr ''assistant'')]),
                   (''content'', JObj [(''parts'', JArr [JStr ''c''])])])]),
               (''n3'', JObj [(''message'', JObj
                  [(''author'', JObj [(''role'', JStr ''user'')]),
                   (''content'', JObj [(''parts'', JArr [])])])]),
               (''n4'', JObj [(''message'', JObj
                  [(''content'', JObj [(''parts'', JArr [JStr ''d''])])])]),
               (''n5'', JObj [(''message'', JObj
                  [(''author'', JObj [(''role'', JStr ''user'')])])]),
               (''n6'', JObj [])])],
      JObj [],
      JObj [(''mapping'', JObj
              [(''m0'', JObj [(''message'', JObj
                  [(''author'', JObj [(''role'', JStr ''user'')]),
                   (''content'', JObj [(''parts'', JStr ''e'')])])]),
               (''m1'', JObj [(''message'', JObj
                  [(''author'', JObj [(''role'', JStr ''user'')]),
                   (''content'', JObj [(''parts'', JArr [JStr ''f''])])])])])]]"

text \<open>An export whose only message has \<^verbatim>\<open>null\<close> for its author.\<close>

definition null_author_export :: "json list" where
  "null_author_export =
     [JObj [(''mapping'', JObj
        [(''n1'', JObj [(''message'', JObj [(''author'', JNull)])])])]]"

text \<open>An export whose only user message has a number for its first part.\<close>

definition number_part_export :: "json list" where
  "number_part_export =
     [JObj [(''mapping'', JObj
        [(''n1'', JObj [(''message'', JObj
            [(''author'', JObj [(''role'', JStr ''user'')]),
             (''content'', JObj [(''parts'', JArr [JInt 5, JStr ''x''])])])])])]]"

text \<open>Arguments asking for the common words and the rephrasing analysis only.\<close>

definition words_and_rephrasing :: args where
  "words_and_rephrasing =
     \<lparr>arg_common_words = True, arg_topic_modeling = False, arg_rephrasing = True,
      arg_print_english_words = None, arg_filter_english_words = False, arg_top_n = 20,
      arg_num_topics = 10, arg_top_words = 10, arg_similarity_threshold = 1 / 2\<rparr>"

text \<open>
  Stand-ins for the library of the topic model, for runs that do not ask for topics.
\<close>

definition no_tfidf :: "string list \<Rightarrow> error + unit \<times> string list" where
  "no_tfidf docs = Inl EmptyCorpus"

definition no_lda :: "int \<Rightarrow> unit \<Rightarrow> error + real list list" where
  "no_lda k X = Inl EmptyCorpus"

text \<open>
  A fitted vectorizer with three feature names, and fitted components of two topics over
  them; in the first topic the first two terms have the same weight.
\<close>

definition three_terms_tfidf :: "string list \<Rightarrow> error + unit \<times> string list" where
  "three_terms_tfidf docs = Inr ((), [''apple'', ''banana'', ''cherry''])"

definition tied_lda :: "int \<Rightarrow> unit \<Rightarrow> error + real list list" where
  "tied_lda k X = Inr [[1 / 2, 1 / 2, 1 / 10], [3 / 10, 2 / 10, 9 / 10]]"

section \<open>Properties of the extractor\<close>

lemma node_step_shaped:
  assumes "shaped_node node"
  shows "node_step node acc =
           Inr (acc @ (case spec_first_part node of None \<Rightarrow> [] | Some p \<Rightarrow> [p]))"
proof -
  from assms obtain kvs where node: "node = JObj kvs"
    by (auto simp: shaped_node_def is_obj_def split: json.splits)
  show ?thesis
  proof (cases "map_of kvs ''message''")
    case None
    then show ?thesis
      by (simp add: node node_step_def spec_first_part_def)
  next
    case (Some message)
    with assms node have sm: "shaped_message message"
      by (simp add: shaped_node_def)
    show ?thesis
    proof (cases "truthy message")
      case False
      then have "get_field message ''author'' = None"
        by (cases message) auto
      with False Some show ?thesis
        by (simp add: node node_step_def spec_first_part_def)
    next
      case True
      with sm obtain ms where message: "message = JObj ms"
        and au: "field_is_obj message ''author''"
        and co: "field_is_obj message ''content''"
        by (auto simp: shaped_message_def is_obj_def split: json.splits)
      from True Some message au co show ?thesis
        by (auto simp: node node_step_def spec_first_part_def field_is_obj_def is_obj_def
                 split: option.splits json.splits list.splits)
    qed
  qed
qed

lemma nodes_loop_shaped:
  "list_all shaped_node nodes \<Longrightarrow>
   nodes_loop nodes acc = Inr (acc @ List.map_filter spec_first_part nodes)"
proof (induction nodes arbitrary: acc)
  case Nil
  then show ?case by (simp add: List.map_filter_simps)
next
  case (Cons node nodes)
  then show ?case
    by (simp add: node_step_shaped List.map_filter_simps split: option.splits)
qed

lemma conversation_step_shaped:
  assumes "shaped_conversation c"
  shows "conversation_step c acc =
           Inr (acc @ List.map_filter spec_first_part (spec_nodes c))"
proof -
  from assms obtain kvs where c: "c = JObj kvs"
    by (auto simp: shaped_conversation_def is_obj_def split: json.splits)
  from assms have nodes: "list_all shaped_node (spec_nodes c)"
    by (simp add: shaped_conversation_def)
  show ?thesis
  proof (cases "map_of kvs ''mapping''")
    case None
    then show ?thesis
      by (simp add: c conversation_step_def spec_nodes_def List.map_filter_simps)
  next
    case (Some mapping)
    with assms c obtain ns where mapping: "mapping = JObj ns"
      by (auto simp: shaped_conversation_def field_is_obj_def is_obj_def split: json.splits)
    from nodes Some mapping have "list_all shaped_node (map snd ns)"
      by (simp add: c spec_nodes_def)
    then have "nodes_loop (map snd ns) acc =
                 Inr (acc @ List.map_filter spec_first_part (map snd ns))"
      by (rule nodes_loop_shaped)
    with Some mapping show ?thesis
      by (simp add: c conversation_step_def spec_nodes_def)
  qed
qed

lemma conversations_loop_shaped:
  "list_all shaped_conversation cs \<Longrightarrow>
   conversations_loop cs acc = Inr (acc @ spec_extract cs)"
proof (induction cs arbitrary: acc)
  case Nil
  then show ?case by (simp add: spec_extract_def)
next
  case (Cons c cs)
  then show ?case
    by (simp add: conversation_step_shaped spec_extract_def)
qed

text \<open>
  C1 (as amended). For every conversation collection in which each conversation, each
  node, each present mapping, each present true message and each present author and
  content is a dictionary, \<open>extract_user_messages\<close> returns, without raising, exactly
  the first content parts of the user-authored messages: conversations in input order,
  the nodes of each in the order of its mapping, a node contributing \<open>parts[0]\<close> if and
  only if it holds a message whose author role is "user" and whose parts is a non-empty
  list. Absent fields contribute nothing.
\<close>

theorem extract_user_messages_shaped:
  "list_all shaped_conversation cs \<Longrightarrow>
   extract_user_messages (JArr cs) = Inr (spec_extract cs)"
  by (simp add: extract_user_messages_def conversations_loop_shaped)

theorem extract_user_messages_shaped_witness:
  "list_all shaped_conversation sample_export \<and>
   extract_user_messages (JArr sample_export) = Inr [JStr ''a'', JStr ''f'']"
proof -
  have shaped: "list_all shaped_conversation sample_export"
    by (simp add: sample_export_def shaped_conversation_def shaped_node_def
          shaped_message_def field_is_obj_def is_obj_def spec_nodes_def)
  have "spec_extract sample_export = [JStr ''a'', JStr ''f'']"
    by (simp add: sample_export_def spec_extract_def spec_nodes_def spec_first_part_def
          List.map_filter_simps)
  with shaped extract_user_messages_shaped [OF shaped] show ?thesis
    by simp
qed

text \<open>
  A message whose author is \<^verbatim>\<open>null\<close> is a dictionary with a malformed field: the default
  of \<^verbatim>\<open>get\<close> is not used for a key that is present, and the call ends in an
  \<^verbatim>\<open>AttributeError\<close> instead of skipping the node.
\<close>

theorem extract_user_messages_null_author:
  "extract_user_messages (JArr null_author_export) = Inl AttributeError"
  by (simp add: null_author_export_def extract_user_messages_def conversation_step_def
        node_step_def)

section \<open>Properties of the Frequency Analyzer\<close>

subsection \<open>The counter and its ranking\<close>

lemma first_occs_snoc:
  "first_occs (ws @ [w]) = (if w \<in> set ws then first_occs ws else first_occs ws @ [w])"
  by (simp add: first_occs_def)

lemma set_first_occs: "set (first_occs ws) = set ws"
  by (simp add: first_occs_def)

lemma distinct_first_occs: "distinct (first_occs ws)"
  by (simp add: first_occs_def)

lemma counter_snoc: "counter (ws @ [w]) = counter_add (counter ws) w"
  by (simp add: counter_def)

lemma counter_add_map:
  "distinct ks \<Longrightarrow>
   counter_add (map (\<lambda>k. (k, f k)) ks) w =
     (if w \<in> set ks then map (\<lambda>k. (k, if k = w then f k + 1 else f k)) ks
      else map (\<lambda>k. (k, f k)) ks @ [(w, 1)])"
  by (induction ks) auto

lemma counter_items: "counter ws = map (\<lambda>w. (w, count_list ws w)) (first_occs ws)"
proof (induction ws rule: rev_induct)
  case Nil
  then show ?case by (simp add: counter_def first_occs_def)
next
  case (snoc w ws)
  have d: "distinct (first_occs ws)" by (rule distinct_first_occs)
  show ?case
  proof (cases "w \<in> set ws")
    case True
    then show ?thesis
      by (simp add: counter_snoc snoc.IH counter_add_map [OF d] set_first_occs first_occs_snoc)
  next
    case False
    then have "count_list ws w = 0" by simp
    with False show ?thesis
      by (auto simp add: counter_snoc snoc.IH counter_add_map [OF d] set_first_occs first_occs_snoc)
  qed
qed

lemma first_pos_snoc:
  "first_pos (ws @ [w]) a =
     (if a \<in> set ws then first_pos ws a else if a = w then length ws else length ws + 1)"
  by (induction ws) (auto simp: first_pos_def)

lemma first_pos_less: "a \<in> set ws \<Longrightarrow> first_pos ws a < length ws"
  by (induction ws) (auto simp: first_pos_def)

lemma first_occs_sorted:
  "sorted_wrt (\<lambda>a b. first_pos ws a < first_pos ws b) (first_occs ws)"
proof (induction ws rule: rev_induct)
  case Nil
  then show ?case by (simp add: first_occs_def)
next
  case (snoc w ws)
  have "sorted_wrt (\<lambda>a b. first_pos (ws @ [w]) a < first_pos (ws @ [w]) b) (first_occs ws)"
    using snoc.IH
    by (rule sorted_wrt_mono_rel [rotated]) (simp add: first_pos_snoc set_first_occs)
  then show ?case
    by (auto simp: first_occs_snoc sorted_wrt_append set_first_occs first_pos_snoc first_pos_less)
qed

lemma insort_key_stable_sorted:
  assumes "sorted_wrt (\<lambda>a b. f a < f b \<or> (f a = f b \<and> Q a b)) ys"
    and "\<forall>y \<in> set ys. Q x y"
  shows "sorted_wrt (\<lambda>a b. f a < f b \<or> (f a = f b \<and> Q a b)) (insort_key f x ys)"
  using assms
proof (induction ys)
  case Nil
  then show ?case by simp
next
  case (Cons y ys)
  show ?case
  proof (cases "f x \<le> f y")
    case True
    have "\<forall>z \<in> set (y # ys). f x < f z \<or> (f x = f z \<and> Q x z)"
    proof
      fix z assume z: "z \<in> set (y # ys)"
      then have "f y \<le> f z" using Cons.prems(1) by auto
      with True have "f x \<le> f z" by simp
      moreover have "Q x z" using Cons.prems(2) z by blast
      ultimately show "f x < f z \<or> (f x = f z \<and> Q x z)" by auto
    qed
    with True Cons.prems(1) show ?thesis by simp
  next
    case False
    then have "f y < f x" by simp
    with False Cons show ?thesis
      by (auto simp: set_insort_key)
  qed
qed

lemma sort_key_stable_sorted:
  "sorted_wrt Q xs \<Longrightarrow>
   sorted_wrt (\<lambda>a b. f a < f b \<or> (f a = f b \<and> Q a b)) (sort_key f xs)"
proof (induction xs)
  case Nil
  then show ?case by simp
next
  case (Cons x xs)
  then show ?case
    by (simp add: insort_key_stable_sorted)
qed

lemma most_common_ranking:
  "\<exists>ranked. spec_ranking ws ranked \<and> most_common n (counter ws) = take (nat n) ranked"
proof -
  let ?f = "\<lambda>kc::'a \<times> nat. - int (snd kc)"
  let ?ranked = "sort_key ?f (counter ws)"
  have "sorted_wrt (\<lambda>a b. first_pos ws (fst a) < first_pos ws (fst b)) (counter ws)"
    using first_occs_sorted [of ws] by (simp add: counter_items sorted_wrt_map)
  then have "sorted_wrt (\<lambda>a b. ?f a < ?f b \<or>
                (?f a = ?f b \<and> first_pos ws (fst a) < first_pos ws (fst b))) ?ranked"
    by (rule sort_key_stable_sorted)
  then have "sorted_wrt (ranks_before ws) ?ranked"
    by (rule sorted_wrt_mono_rel [rotated]) (auto simp: ranks_before_def)
  moreover have "set ?ranked = (\<lambda>w. (w, count_list ws w)) ` set ws"
    by (simp add: counter_items set_first_occs)
  moreover have "distinct (map fst ?ranked)"
  proof -
    have "mset (map fst ?ranked) = mset (map fst (counter ws))" by simp
    moreover have "distinct (map fst (counter ws))"
      by (simp add: counter_items distinct_first_occs comp_def)
    ultimately show ?thesis by (metis mset_eq_imp_distinct_iff)
  qed
  ultimately have "spec_ranking ws ?ranked" by (simp add: spec_ranking_def)
  then show ?thesis by (auto simp: most_common_def)
qed

text \<open>
  C2. Without filtering, the Frequency Analyzer returns the first \<open>top_n\<close> pairs of the
  full ranking of its tokens: each token once with its number of occurrences, in falling
  count order, equal counts in the order the tokens were first met. The tokens are the
  whitespace-delimited words of the string messages, in \<^verbatim>\<open>parse.py\<close> after lowercasing.
  On \<^verbatim>\<open>["cat dog", "cat cat"]\<close> with \<open>top_n = 2\<close> both return
  \<^verbatim>\<open>[("cat", 3), ("dog", 1)]\<close>.
\<close>

theorem common_words_analysis_ranking:
  "(\<exists>ranked. spec_ranking (concat (map str_split (str_messages messages))) ranked \<and>
      common_words_analysis3 messages top_n False = take (nat top_n) ranked) \<and>
   (\<exists>ranked. spec_ranking
        (concat (map (\<lambda>message. str_split (str_lower message)) (str_messages messages))) ranked \<and>
      common_words_analysis messages top_n False = take (nat top_n) ranked) \<and>
   common_words_analysis3 [JStr ''cat dog'', JStr ''cat cat''] 2 False
     = [(''cat'', 3), (''dog'', 1)] \<and>
   common_words_analysis [JStr ''cat dog'', JStr ''cat cat''] 2 False
     = [(''cat'', 3), (''dog'', 1)]"
proof (intro conjI)
  show "\<exists>ranked. spec_ranking (concat (map str_split (str_messages messages))) ranked \<and>
      common_words_analysis3 messages top_n False = take (nat top_n) ranked"
    using most_common_ranking [of "concat (map str_split (str_messages messages))" top_n]
    by (simp add: common_words_analysis3_def)
  show "\<exists>ranked. spec_ranking
        (concat (map (\<lambda>message. str_split (str_lower message)) (str_messages messages))) ranked \<and>
      common_words_analysis messages top_n False = take (nat top_n) ranked"
    using most_common_ranking
      [of "concat (map (\<lambda>message. str_split (str_lower message)) (str_messages messages))" top_n]
    by (simp add: common_words_analysis_def)
  show "common_words_analysis3 [JStr ''cat dog'', JStr ''cat cat''] 2 False
     = [(''cat'', 3), (''dog'', 1)]"
    by (simp add: common_words_analysis3_def str_split_def is_space_def counter_def
          most_common_def)
  show "common_words_analysis [JStr ''cat dog'', JStr ''cat cat''] 2 False
     = [(''cat'', 3), (''dog'', 1)]"
    by (simp add: common_words_analysis_def str_split_def is_space_def counter_def
          most_common_def str_lower_def char_lower_def upper_letters_def lower_letters_def)
qed

subsection \<open>Cleaning and filtering\<close>



lemma set_counter: "set (counter ws) = (\<lambda>w. (w, count_list ws w)) ` set ws"
  by (simp add: counter_items set_first_occs)

lemma set_most_common: "set (most_common n items) \<subseteq> set items"
  by (auto simp: most_common_def dest: in_set_takeD)


lemma count_list_map:
  "count_list (map g ws) t = length (filter (\<lambda>w. g w = t) ws)"
  by (induction ws) auto





subsection \<open>Lowercasing at the two entry points\<close>

lemma char_lower_space: "is_space (char_lower c) = is_space c"
proof (cases "map_of (zip upper_letters lower_letters) c")
  case None
  then show ?thesis by (simp add: char_lower_def)
next
  case (Some d)
  then have "(c, d) \<in> set (zip upper_letters lower_letters)"
    by (rule map_of_SomeD)
  then have "c \<in> set upper_letters" and "d \<in> set lower_letters"
    by (auto dest: set_zip_leftD set_zip_rightD)
  then have "\<not> is_space c" and "\<not> is_space d"
    by (auto simp: is_space_def upper_letters_def lower_letters_def)
  with Some show ?thesis by (simp add: char_lower_def)
qed

lemma split_from_lower:
  "split_from (map char_lower cur) (map char_lower s) = map (map char_lower) (split_from cur s)"
proof (induction s arbitrary: cur)
  case Nil
  then show ?case by simp
next
  case (Cons c s)
  have nil: "split_from [] (map char_lower s) = map (map char_lower) (split_from [] s)"
    using Cons.IH [of "[]"] by simp
  have snoc: "split_from (map char_lower cur @ [char_lower c]) (map char_lower s)
      = map (map char_lower) (split_from (cur @ [c]) s)"
    using Cons.IH [of "cur @ [c]"] by simp
  show ?case
    by (simp add: char_lower_space nil snoc)
qed

lemma str_split_lower: "str_split (str_lower s) = map str_lower (str_split s)"
proof -
  have "map str_lower (str_split s) = map (map char_lower) (split_from [] s)"
    by (simp add: str_split_def str_lower_def [abs_def])
  with split_from_lower [of "[]" s] show ?thesis
    by (simp add: str_split_def str_lower_def)
qed

lemma str_messages_strs: "str_messages (map JStr xs) = xs"
  by (induction xs) auto

text \<open>
  C9. With \<open>filter_english\<close> false, \<^verbatim>\<open>parse.py\<close> lowercases before counting: it ranks
  the lowercased words, so a count is the number of words equal to the token up to case.
  \<^verbatim>\<open>parse3.py\<close> does not: on \<^verbatim>\<open>["Cat cat"]\<close> the two entry points return different
  lists, which is the second alternative of the claim.
\<close>

theorem lowercasing_entry_points:
  "common_words_analysis messages top_n False =
     most_common top_n
       (counter (map str_lower (concat (map str_split (str_messages messages))))) \<and>
   (\<forall>(tok, c) \<in> set (common_words_analysis messages top_n False).
      c = length (filter (\<lambda>word. str_lower word = tok)
                   (concat (map str_split (str_messages messages))))) \<and>
   common_words_analysis [JStr ''Cat cat''] 20 False = [(''cat'', 2)] \<and>
   common_words_analysis3 [JStr ''Cat cat''] 20 False = [(''Cat'', 1), (''cat'', 1)] \<and>
   common_words_analysis [JStr ''Cat cat''] 20 False
     \<noteq> common_words_analysis3 [JStr ''Cat cat''] 20 False"
proof -
  let ?words = "concat (map str_split (str_messages messages))"
  have words: "concat (map (\<lambda>message. str_split (str_lower message)) (str_messages messages))
      = map str_lower ?words"
    by (simp add: str_split_lower map_concat comp_def)
  then have eq: "common_words_analysis messages top_n False =
      most_common top_n (counter (map str_lower ?words))"
    by (simp add: common_words_analysis_def)
  have counts: "c = length (filter (\<lambda>word. str_lower word = tok) ?words)"
    if "(tok, c) \<in> set (common_words_analysis messages top_n False)" for tok c
  proof -
    from that eq have "(tok, c) \<in> set (counter (map str_lower ?words))"
      using set_most_common [of top_n "counter (map str_lower ?words)"] by auto
    then show ?thesis by (auto simp: set_counter count_list_map)
  qed
  have ex1: "common_words_analysis [JStr ''Cat cat''] 20 False = [(''cat'', 2)]"
    by (simp add: common_words_analysis_def str_split_def is_space_def counter_def
          most_common_def str_lower_def char_lower_def upper_letters_def lower_letters_def)
  have ex3: "common_words_analysis3 [JStr ''Cat cat''] 20 False = [(''Cat'', 1), (''cat'', 1)]"
    by (simp add: common_words_analysis3_def str_split_def is_space_def counter_def
          most_common_def)
  from eq counts ex1 ex3 show ?thesis by auto
qed

theorem lowercasing_entry_points_witness:
  "(''cat'', 2) \<in> set (common_words_analysis [JStr ''Cat cat''] 20 False) \<and>
   (2::nat) = length (filter (\<lambda>word. str_lower word = ''cat'')
                 (concat (map str_split (str_messages [JStr ''Cat cat'']))))"
proof -
  have mem: "(''cat'', 2) \<in> set (common_words_analysis [JStr ''Cat cat''] 20 False)"
    using lowercasing_entry_points [of "[]" 20] by simp
  with lowercasing_entry_points [of "[JStr ''Cat cat'']" 20] show ?thesis
    by fastforce
qed

section \<open>Non-string parts\<close>

lemma str_messages_idem: "str_messages (map JStr (str_messages messages)) = str_messages messages"
  by (simp add: str_messages_strs)

lemma str_messages_set: "set (str_messages messages) = {s. JStr s \<in> set messages}"
  by (induction messages rule: str_messages.induct) auto

text \<open>
  C10. The extractor passes a first part that is no string on unchanged: a user message
  whose parts are \<^verbatim>\<open>[5, "x"]\<close> yields the number 5. Each analysis reads only the
  strings among the messages, so its result is the one it gives on the strings alone.
\<close>

theorem non_string_parts_skipped:
  "extract_user_messages (JArr number_part_export) = Inr [JInt 5] \<and>
   set (str_messages messages) = {s. JStr s \<in> set messages} \<and>
   common_words_analysis3 messages top_n filter_english =
     common_words_analysis3 (map JStr (str_messages messages)) top_n filter_english \<and>
   common_words_analysis messages top_n filter_english =
     common_words_analysis (map JStr (str_messages messages)) top_n filter_english \<and>
   topic_modeling_analysis fit_tfidf lda_fit argsort messages num_topics top_words =
     topic_modeling_analysis fit_tfidf lda_fit argsort (map JStr (str_messages messages))
       num_topics top_words \<and>
   question_rephrasing_analysis fit_transform cosine_sim messages similarity_threshold =
     question_rephrasing_analysis fit_transform cosine_sim (map JStr (str_messages messages))
       similarity_threshold"
proof (intro conjI)
  show "extract_user_messages (JArr number_part_export) = Inr [JInt 5]"
    by (simp add: number_part_export_def extract_user_messages_def conversation_step_def
          node_step_def)
  show "set (str_messages messages) = {s. JStr s \<in> set messages}"
    by (rule str_messages_set)
  show "common_words_analysis3 messages top_n filter_english =
     common_words_analysis3 (map JStr (str_messages messages)) top_n filter_english"
    by (simp only: common_words_analysis3_def str_messages_idem)
  show "common_words_analysis messages top_n filter_english =
     common_words_analysis (map JStr (str_messages messages)) top_n filter_english"
    by (simp only: common_words_analysis_def str_messages_idem)
  show "topic_modeling_analysis fit_tfidf lda_fit argsort messages num_topics top_words =
     topic_modeling_analysis fit_tfidf lda_fit argsort (map JStr (str_messages messages))
       num_topics top_words"
    by (simp only: topic_modeling_analysis_def str_messages_idem)
  show "question_rephrasing_analysis fit_transform cosine_sim messages similarity_threshold =
     question_rephrasing_analysis fit_transform cosine_sim (map JStr (str_messages messages))
       similarity_threshold"
    by (simp only: question_rephrasing_analysis_def questions_def str_messages_idem)
qed

section \<open>Properties of the Similarity Detector\<close>

lemma similar_questions_index_pairs:
  "similar_questions sim qs t =
     map (\<lambda>(i, j). (qs ! i, qs ! j)) (index_pairs sim (length qs) t (length qs))"
proof -
  have row: "concat (map (\<lambda>j. if sim i j > t then [(qs ! i, qs ! j)] else []) js)
      = map (\<lambda>(i, j). (qs ! i, qs ! j)) (map (Pair i) (filter (\<lambda>j. sim i j > t) js))"
    for i js
    by (induction js) auto
  show ?thesis
    by (simp add: similar_questions_def index_pairs_def row map_concat comp_def)
qed

lemma set_index_pairs:
  "set (index_pairs sim n t m) = {(i, j). i < m \<and> i < j \<and> j < n \<and> sim i j > t}"
  by (auto simp: index_pairs_def)





subsection \<open>Two questions\<close>

lemma similar_questions_two:
  "similar_questions sim [q1, q2] t = (if sim 0 1 > t then [(q1, q2)] else [])"
proof -
  have "[0..<2] = [0, 1::nat]" "[1..<2] = [1::nat]" "[2..<2] = ([]::nat list)"
    by (simp_all add: upt_rec)
  then show ?thesis
    by (simp add: similar_questions_def)
qed

lemma similar_questions_few: "length qs < 2 \<Longrightarrow> similar_questions sim qs t = []"
proof -
  assume "length qs < 2"
  then have "set (index_pairs sim (length qs) t (length qs)) = {}"
    by (auto simp: set_index_pairs)
  then show ?thesis
    by (simp add: similar_questions_index_pairs)
qed

lemma word_tokens_samples:
  "word_tokens ''hello?'' = [''hello'']"
  "word_tokens ''Hello ?'' = [''hello'']"
  "word_tokens ''aa bb bb ?'' = [''aa'', ''bb'', ''bb'']"
  "word_tokens ''aa aa bb ?'' = [''aa'', ''aa'', ''bb'']"
  "word_tokens ''how are you?'' = [''how'', ''are'', ''you'']"
  "word_tokens ''?'' = []"
  by (simp_all add: word_tokens_def str_lower_def char_lower_def upper_letters_def
        lower_letters_def is_word_char_def)

text \<open>
  C4 (as amended). For exactly two interrogative utterances whose count vectors are
  built, the pair is emitted exactly when the library's similarity of the two vectors
  is strictly above the threshold. So when that similarity is exactly 1.0, the pair is
  emitted for every threshold strictly below 1.0 and is not emitted for the threshold
  1.0, the comparison being strict. Identical token sets do not make the similarity
  1.0, and no value of the similarity is stated for them.
\<close>

theorem pair_emitted_above_threshold:
  assumes two: "questions messages = [q1, q2]"
    and built: "fit_transform [q1, q2] = Inr X"
  shows "question_rephrasing_analysis fit_transform cosine_sim messages threshold =
           Inr (if cosine_sim X 0 1 > threshold then [(q1, q2)] else []) \<and>
         (cosine_sim X 0 1 = 1 \<longrightarrow>
            (\<forall>t < 1. question_rephrasing_analysis fit_transform cosine_sim messages t
                       = Inr [(q1, q2)]) \<and>
            question_rephrasing_analysis fit_transform cosine_sim messages 1 = Inr [])"
proof -
  have res: "question_rephrasing_analysis fit_transform cosine_sim messages t =
      Inr (if cosine_sim X 0 1 > t then [(q1, q2)] else [])" for t
    by (simp add: question_rephrasing_analysis_def Let_def two built similar_questions_two)
  show ?thesis
  proof (intro conjI impI allI)
    show "question_rephrasing_analysis fit_transform cosine_sim messages threshold =
           Inr (if cosine_sim X 0 1 > threshold then [(q1, q2)] else [])"
      by (rule res)
  next
    fix t :: real
    assume "cosine_sim X 0 1 = 1" and "t < 1"
    then show "question_rephrasing_analysis fit_transform cosine_sim messages t
        = Inr [(q1, q2)]"
      by (simp add: res)
  next
    assume "cosine_sim X 0 1 = 1"
    then show "question_rephrasing_analysis fit_transform cosine_sim messages 1 = Inr []"
      by (simp add: res)
  qed
qed

theorem pair_emitted_above_threshold_witness:
  "questions [JStr ''hello?'', JStr ''no'', JStr ''Hello ?''] = [''hello?'', ''Hello ?''] \<and>
   count_vectors [''hello?'', ''Hello ?''] = Inr [[1], [1]] \<and>
   cosine_similarity [[1], [1]] 0 1 = 1 \<and>
   question_rephrasing_analysis count_vectors cosine_similarity
     [JStr ''hello?'', JStr ''no'', JStr ''Hello ?''] (1 / 2)
     = Inr [(''hello?'', ''Hello ?'')] \<and>
   question_rephrasing_analysis count_vectors cosine_similarity
     [JStr ''hello?'', JStr ''no'', JStr ''Hello ?''] 1 = Inr []"
proof -
  let ?messages = "[JStr ''hello?'', JStr ''no'', JStr ''Hello ?'']"
  have two: "questions ?messages = [''hello?'', ''Hello ?'']"
    by (simp add: questions_def str_strip_def ends_with_qmark_def is_space_def)
  have built: "count_vectors [''hello?'', ''Hello ?''] = Inr [[1], [1]]"
    by (simp add: count_vectors_def word_tokens_samples)
  have one: "cosine_similarity [[1], [1]] 0 1 = 1"
    by (simp add: cosine_similarity_def cosine_def dot_def)
  have half: "(1 / 2 :: real) < 1"
    by simp
  from pair_emitted_above_threshold
    [where messages = ?messages and ?q1.0 = "''hello?''" and ?q2.0 = "''Hello ?''"
       and fit_transform = count_vectors and X = "[[1], [1]]"
       and cosine_sim = cosine_similarity and threshold = "1 / 2", OF two built]
  have "(\<forall>t < 1. question_rephrasing_analysis count_vectors cosine_similarity ?messages t
                = Inr [(''hello?'', ''Hello ?'')]) \<and>
      question_rephrasing_analysis count_vectors cosine_similarity ?messages 1 = Inr []"
    using one by blast
  with half have
    "question_rephrasing_analysis count_vectors cosine_similarity ?messages (1 / 2)
       = Inr [(''hello?'', ''Hello ?'')]"
    "question_rephrasing_analysis count_vectors cosine_similarity ?messages 1 = Inr []"
    by blast+
  with two built one show ?thesis
    by (intro conjI)
qed

text \<open>
  Two questions with the same set of tokens but different counts: \<^verbatim>\<open>"aa bb bb ?"\<close> and
  \<^verbatim>\<open>"aa aa bb ?"\<close> have the count vectors \<open>(1, 2)\<close> and \<open>(2, 1)\<close>, of similarity
  \<open>4/5\<close> over the reals, which is below \<open>0.9\<close> with a margin no rounding bridges, and
  the pair is not emitted for the threshold \<open>0.9\<close>.
\<close>

theorem identical_token_sets_differ:
  "questions [JStr ''aa bb bb ?'', JStr ''aa aa bb ?''] = [''aa bb bb ?'', ''aa aa bb ?''] \<and>
   set (word_tokens ''aa bb bb ?'') = set (word_tokens ''aa aa bb ?'') \<and>
   count_vectors [''aa bb bb ?'', ''aa aa bb ?''] = Inr [[1, 2], [2, 1]] \<and>
   cosine_similarity [[1, 2], [2, 1]] 0 1 < 9 / 10 \<and>
   question_rephrasing_analysis count_vectors cosine_similarity
     [JStr ''aa bb bb ?'', JStr ''aa aa bb ?''] (9 / 10) = Inr []"
proof -
  have two: "questions [JStr ''aa bb bb ?'', JStr ''aa aa bb ?'']
      = [''aa bb bb ?'', ''aa aa bb ?'']"
    by (simp add: questions_def str_strip_def ends_with_qmark_def is_space_def)
  have same: "set (word_tokens ''aa bb bb ?'') = set (word_tokens ''aa aa bb ?'')"
    by (simp add: word_tokens_samples)
  have X: "count_vectors [''aa bb bb ?'', ''aa aa bb ?''] = Inr [[1, 2], [2, 1]]"
    by (simp add: count_vectors_def word_tokens_samples)
  have cos: "cosine_similarity [[1, 2], [2, 1]] 0 1 < 9 / 10"
    by (simp add: cosine_similarity_def cosine_def dot_def)
  have "question_rephrasing_analysis count_vectors cosine_similarity
     [JStr ''aa bb bb ?'', JStr ''aa aa bb ?''] (9 / 10) = Inr []"
    by (simp add: question_rephrasing_analysis_def Let_def two X similar_questions_two
          cosine_similarity_def cosine_def dot_def)
  with two same X cos show ?thesis
    by (intro conjI)
qed

subsection \<open>Fewer than two questions\<close>

lemma rephrasing_few:
  "length (questions messages) < 2 \<Longrightarrow>
   question_rephrasing_analysis fit_transform cosine_sim messages t =
     (case fit_transform (questions messages) of Inl e \<Rightarrow> Inl e | Inr X \<Rightarrow> Inr [])"
  by (simp add: question_rephrasing_analysis_def Let_def similar_questions_few
        split: sum.splits)

lemma count_vectors_raises:
  "count_vectors docs =
     (if concat (map word_tokens docs) = [] then Inl EmptyCorpus
      else Inr (map (\<lambda>doc. map (count_list (word_tokens doc))
                  (sort (remdups (concat (map word_tokens docs))))) docs))"
proof -
  have "length (sort (remdups (concat (map word_tokens docs))))
      = length (remdups (concat (map word_tokens docs)))"
    by (rule length_sort)
  then have "sort (remdups (concat (map word_tokens docs))) = [] \<longleftrightarrow>
      remdups (concat (map word_tokens docs)) = []"
    by (simp only: length_0_conv [symmetric])
  also have "\<dots> \<longleftrightarrow> concat (map word_tokens docs) = []"
    by (rule remdups_eq_nil_iff)
  finally show ?thesis
    by (simp only: count_vectors_def Let_def)
qed

text \<open>
  C5 (as amended). For every message sequence with fewer than 2 interrogative
  utterances, the Similarity Detector returns the empty result exactly when the count
  vectors are built; the run then keeps the results of the other requested analyses and
  adds the empty list. When the builder raises, the detector raises the same error,
  and so does the run, whatever the other analyses returned. The library's builder
  raises when the interrogative utterances hold no token: when there is none, or when
  the only one has no run of two or more word characters.
\<close>

theorem few_questions_empty_or_raise:
  assumes few: "length (questions messages) < 2"
  shows
    "question_rephrasing_analysis fit_transform cosine_sim messages t =
       (case fit_transform (questions messages) of Inl e \<Rightarrow> Inl e | Inr X \<Rightarrow> Inr []) \<and>
     question_rephrasing_analysis count_vectors cosine_sim' messages t =
       (if concat (map word_tokens (questions messages)) = [] then Inl EmptyCorpus
        else Inr []) \<and>
     (\<forall>X. fit_transform (questions messages) = Inr X \<longrightarrow>
        run_analyses fit_tfidf lda_fit argsort fit_transform cosine_sim a messages =
          (case earlier_analyses fit_tfidf lda_fit argsort (requested a) messages of
             Inl e \<Rightarrow> Inl e
           | Inr results \<Rightarrow>
               Inr (if arg_rephrasing (requested a)
                    then dict_update results [(''similar_questions'', SimilarQuestions [])]
                    else results))) \<and>
     (\<forall>e results. fit_transform (questions messages) = Inl e \<longrightarrow>
        arg_rephrasing (requested a) \<longrightarrow>
        earlier_analyses fit_tfidf lda_fit argsort (requested a) messages = Inr results \<longrightarrow>
        run_analyses fit_tfidf lda_fit argsort fit_transform cosine_sim a messages = Inl e)"
proof (intro conjI allI impI)
  show "question_rephrasing_analysis fit_transform cosine_sim messages t =
       (case fit_transform (questions messages) of Inl e \<Rightarrow> Inl e | Inr X \<Rightarrow> Inr [])"
    using few by (rule rephrasing_few)
next
  show "question_rephrasing_analysis count_vectors cosine_sim' messages t =
       (if concat (map word_tokens (questions messages)) = [] then Inl EmptyCorpus
        else Inr [])"
    by (simp add: rephrasing_few [OF few] count_vectors_raises)
next
  fix X
  assume "fit_transform (questions messages) = Inr X"
  then show "run_analyses fit_tfidf lda_fit argsort fit_transform cosine_sim a messages =
          (case earlier_analyses fit_tfidf lda_fit argsort (requested a) messages of
             Inl e \<Rightarrow> Inl e
           | Inr results \<Rightarrow>
               Inr (if arg_rephrasing (requested a)
                    then dict_update results [(''similar_questions'', SimilarQuestions [])]
                    else results))"
    by (simp add: run_analyses_def Let_def rephrasing_few [OF few] split: sum.splits)
next
  fix e results
  assume "fit_transform (questions messages) = Inl e"
    and "arg_rephrasing (requested a)"
    and "earlier_analyses fit_tfidf lda_fit argsort (requested a) messages = Inr results"
  then show "run_analyses fit_tfidf lda_fit argsort fit_transform cosine_sim a messages = Inl e"
    by (simp add: run_analyses_def Let_def rephrasing_few [OF few])
qed

theorem few_questions_empty_or_raise_witness:
  "length (questions [JStr ''how are you?'', JStr ''fine'']) < 2 \<and>
   count_vectors (questions [JStr ''how are you?'', JStr ''fine'']) = Inr [[1, 1, 1]] \<and>
   question_rephrasing_analysis count_vectors cosine_similarity
     [JStr ''how are you?'', JStr ''fine''] (1 / 2) = Inr [] \<and>
   run_analyses no_tfidf no_lda stable_argsort count_vectors cosine_similarity
     words_and_rephrasing [JStr ''how are you?'', JStr ''fine'']
   = Inr [(''common_words'',
           CommonWords [(''how'', 1), (''are'', 1), (''you?'', 1), (''fine'', 1)]),
          (''similar_questions'', SimilarQuestions [])]"
proof -
  have qs: "questions [JStr ''how are you?'', JStr ''fine''] = [''how are you?'']"
    by (simp add: questions_def str_strip_def ends_with_qmark_def is_space_def)
  then have few: "length (questions [JStr ''how are you?'', JStr ''fine'']) < 2"
    by simp
  have X: "count_vectors (questions [JStr ''how are you?'', JStr ''fine''])
      = Inr [[1, 1, 1]]"
    by (simp add: qs count_vectors_def word_tokens_samples)
  have req: "requested words_and_rephrasing = words_and_rephrasing"
    by (simp add: requested_def words_and_rephrasing_def)
  have cw: "common_words_analysis3 [JStr ''how are you?'', JStr ''fine''] 20 False
      = [(''how'', 1), (''are'', 1), (''you?'', 1), (''fine'', 1)]"
    by (simp add: common_words_analysis3_def str_split_def is_space_def counter_def
          most_common_def)
  have earlier: "earlier_analyses no_tfidf no_lda stable_argsort words_and_rephrasing
      [JStr ''how are you?'', JStr ''fine'']
      = Inr [(''common_words'',
              CommonWords [(''how'', 1), (''are'', 1), (''you?'', 1), (''fine'', 1)])]"
    by (simp add: earlier_analyses_def words_and_rephrasing_def dict_update_def cw)
  from few_questions_empty_or_raise [OF few,
      where fit_transform = count_vectors and cosine_sim = cosine_similarity
        and cosine_sim' = cosine_similarity
        and t = "1 / 2" and fit_tfidf = no_tfidf and lda_fit = no_lda
        and argsort = stable_argsort and a = words_and_rephrasing]
    few X req earlier
  show ?thesis
    by (simp add: dict_update_def words_and_rephrasing_def)
qed

text \<open>
  No interrogative utterance: the builder fails on the empty document set, the detector
  has no handler, and the run that also asked for the common words ends in the error
  although their result was computed.
\<close>

theorem no_questions_raises:
  "questions [JStr ''hello there'', JInt 3] = [] \<and>
   question_rephrasing_analysis count_vectors cosine_similarity
     [JStr ''hello there'', JInt 3] (1 / 2) = Inl EmptyCorpus \<and>
   earlier_analyses no_tfidf no_lda stable_argsort words_and_rephrasing
     [JStr ''hello there'', JInt 3]
     = Inr [(''common_words'', CommonWords [(''hello'', 1), (''there'', 1)])] \<and>
   run_analyses no_tfidf no_lda stable_argsort count_vectors cosine_similarity
     words_and_rephrasing [JStr ''hello there'', JInt 3] = Inl EmptyCorpus"
proof -
  have qs: "questions [JStr ''hello there'', JInt 3] = []"
    by (simp add: questions_def str_strip_def ends_with_qmark_def is_space_def)
  have raise: "question_rephrasing_analysis count_vectors cosine_similarity
     [JStr ''hello there'', JInt 3] (1 / 2) = Inl EmptyCorpus"
    by (simp add: question_rephrasing_analysis_def qs count_vectors_def)
  have req: "requested words_and_rephrasing = words_and_rephrasing"
    by (simp add: requested_def words_and_rephrasing_def)
  have flags: "arg_rephrasing words_and_rephrasing"
    "arg_similarity_threshold words_and_rephrasing = 1 / 2"
    by (simp_all add: words_and_rephrasing_def)
  have cw: "common_words_analysis3 [JStr ''hello there'', JInt 3] 20 False
      = [(''hello'', 1), (''there'', 1)]"
    by (simp add: common_words_analysis3_def str_split_def is_space_def counter_def
          most_common_def)
  have earlier: "earlier_analyses no_tfidf no_lda stable_argsort words_and_rephrasing
      [JStr ''hello there'', JInt 3]
      = Inr [(''common_words'', CommonWords [(''hello'', 1), (''there'', 1)])]"
    by (simp add: earlier_analyses_def words_and_rephrasing_def dict_update_def cw)
  then have "run_analyses no_tfidf no_lda stable_argsort count_vectors cosine_similarity
     words_and_rephrasing [JStr ''hello there'', JInt 3] = Inl EmptyCorpus"
    by (auto simp: run_analyses_def Let_def req raise flags)
  with qs raise earlier show ?thesis by simp
qed

text \<open>
  A single interrogative utterance without a token, \<^verbatim>\<open>"?"\<close>: the vocabulary is empty
  and the builder fails as it does on no utterance.
\<close>

lemma lone_question_mark_raises:
  "questions [JStr ''?''] = [''?''] \<and>
   question_rephrasing_analysis count_vectors cosine_similarity [JStr ''?''] (1 / 2)
     = Inl EmptyCorpus"
proof -
  have qs: "questions [JStr ''?''] = [''?'']"
    by (simp add: questions_def str_strip_def ends_with_qmark_def is_space_def)
  then show ?thesis
    by (simp add: question_rephrasing_analysis_def count_vectors_def word_tokens_samples)
qed

section \<open>Properties of the Topic Model\<close>

subsection \<open>The keys of the topics\<close>

lemma first_pos_nth: "distinct xs \<Longrightarrow> i < length xs \<Longrightarrow> first_pos xs (xs ! i) = i"
proof (induction xs arbitrary: i)
  case Nil
  then show ?case by simp
next
  case (Cons x xs)
  show ?case
  proof (cases i)
    case 0
    then show ?thesis by (simp add: first_pos_def)
  next
    case (Suc j)
    with Cons.prems have "xs ! j \<in> set xs" "x \<notin> set xs" by auto
    then have "x \<noteq> xs ! j" by auto
    moreover from Cons Suc have "first_pos xs (xs ! j) = j" by simp
    ultimately show ?thesis using Suc by (simp add: first_pos_def)
  qed
qed

lemma digit_pos: "d < 10 \<Longrightarrow> first_pos ''0123456789'' (''0123456789'' ! d) = d"
  by (rule first_pos_nth) simp_all

lemma nat_of_str_nat: "nat_of_str (str_nat n) = n"
proof (induction n rule: str_nat.induct)
  case (1 n)
  show ?case
  proof (cases "n < 10")
    case True
    then show ?thesis
      by (subst str_nat.simps) (simp add: nat_of_str_def digit_pos)
  next
    case False
    with "1" have "nat_of_str (str_nat (n div 10)) = n div 10" by simp
    moreover have "n mod 10 < 10" by simp
    ultimately show ?thesis
      using False
      by (subst str_nat.simps) (simp add: nat_of_str_def digit_pos del: upt_Suc)
  qed
qed

lemma str_nat_inj: "str_nat m = str_nat n \<Longrightarrow> m = n"
  by (metis nat_of_str_nat)

lemma topic_key_inj: "topic_key i = topic_key j \<Longrightarrow> i = j"
  by (auto simp: topic_key_def dest: str_nat_inj)

lemma map_fst_zip_keys:
  "length is = length ts \<Longrightarrow> map fst (map (\<lambda>(i, t). (f i, g t)) (zip is ts)) = map f is"
  by (induction "is" ts rule: list_induct2) auto

lemma dict_set_fresh: "key \<notin> fst ` set kvs \<Longrightarrow> dict_set kvs key v = kvs @ [(key, v)]"
  by (induction kvs) auto

subsection \<open>The terms of one topic\<close>

lemma slice_back_top: "0 \<le> k \<Longrightarrow> slice_back a (- k - 1) = take (nat k) (rev a)"
  by (auto simp: slice_back_def Let_def max_def intro!: arg_cong2 [where f = take])

lemma index_all_ok:
  "\<forall>i \<in> set idxs. i < length words \<Longrightarrow> index_all words idxs = Inr (map (\<lambda>i. words ! i) idxs)"
  by (induction idxs) auto

lemma sorts_row_stable_argsort: "sorts_row stable_argsort topic"
proof -
  have "sorted_wrt (\<lambda>a b. topic ! a \<le> topic ! b) (stable_argsort topic)"
    using sorted_sort_key [of "\<lambda>i. topic ! i" "[0..<length topic]"]
    by (simp add: stable_argsort_def sorted_map)
  moreover have "set (stable_argsort topic) = {..<length topic}"
    by (auto simp: stable_argsort_def)
  moreover have "distinct (stable_argsort topic)"
    by (simp add: stable_argsort_def)
  ultimately show ?thesis
    by (simp add: sorts_row_def)
qed

lemma set_argsort: "sorts_row argsort topic \<Longrightarrow> set (argsort topic) = {..<length topic}"
  by (simp add: sorts_row_def)

lemma distinct_argsort: "sorts_row argsort topic \<Longrightarrow> distinct (argsort topic)"
  by (simp add: sorts_row_def)

lemma length_argsort:
  assumes "sorts_row argsort topic"
  shows "length (argsort topic) = length topic"
proof -
  have "length (argsort topic) = card (set (argsort topic))"
    using distinct_argsort [OF assms] by (simp add: distinct_card)
  also have "\<dots> = length topic"
    by (simp add: set_argsort [OF assms])
  finally show ?thesis .
qed

lemma sorted_argsort:
  "sorts_row argsort topic \<Longrightarrow> sorted_wrt (\<lambda>a b. topic ! a \<le> topic ! b) (argsort topic)"
  by (simp add: sorts_row_def)

lemma top_words_list_ok:
  assumes "0 \<le> k" and "length topic = length words" and srt: "sorts_row argsort topic"
  shows "top_words_list argsort words topic k =
           Inr (map (\<lambda>i. words ! i) (take (nat k) (rev (argsort topic))))"
proof -
  have "set (take (nat k) (rev (argsort topic))) \<subseteq> set (rev (argsort topic))"
    by (rule set_take_subset)
  then have "set (take (nat k) (rev (argsort topic))) \<subseteq> {..<length words}"
    by (simp add: set_argsort [OF srt] assms(2))
  then have ok: "\<forall>i \<in> set (take (nat k) (rev (argsort topic))). i < length words"
    by blast
  have "top_words_list argsort words topic k =
      index_all words (take (nat k) (rev (argsort topic)))"
    by (simp only: top_words_list_def slice_back_top [OF assms(1)])
  also have "\<dots> = Inr (map (\<lambda>i. words ! i) (take (nat k) (rev (argsort topic))))"
    using ok by (rule index_all_ok)
  finally show ?thesis .
qed

lemma top_indices_spec:
  assumes srt: "sorts_row argsort topic"
  shows "spec_top_terms words topic n (map (\<lambda>i. words ! i) (take n (rev (argsort topic))))"
proof -
  define xs where "xs = rev (argsort topic)"
  define idxs where "idxs = take n xs"
  have set_xs: "set xs = {..<length topic}"
    by (simp add: xs_def set_argsort [OF srt])
  have desc: "sorted_wrt (\<lambda>a b. topic ! a \<ge> topic ! b) xs"
    using sorted_argsort [OF srt] by (simp add: xs_def sorted_wrt_rev)
  then have s: "sorted_wrt (\<lambda>a b. topic ! a \<ge> topic ! b) idxs"
    unfolding idxs_def by (rule sorted_wrt_take)
  have "distinct xs"
    by (simp add: xs_def distinct_argsort [OF srt])
  then have d: "distinct idxs"
    unfolding idxs_def by (rule distinct_take)
  have "set idxs \<subseteq> set xs"
    unfolding idxs_def by (rule set_take_subset)
  then have sub: "set idxs \<subseteq> {..<length topic}"
    by (simp only: set_xs)
  have "length xs = length topic"
    by (simp add: xs_def length_argsort [OF srt])
  then have len: "length idxs = min n (length topic)"
    by (simp add: idxs_def min.commute)
  have split: "xs = idxs @ drop n xs"
    by (simp add: idxs_def)
  have top: "topic ! j \<le> topic ! a"
    if j: "j < length topic" and out: "j \<notin> set idxs" and a: "a \<in> set idxs" for j a
  proof -
    from j have "j \<in> set xs" by (simp add: set_xs)
    then have "j \<in> set idxs \<union> set (drop n xs)"
      by (subst (asm) split) simp
    with out have jd: "j \<in> set (drop n xs)" by simp
    from desc have "sorted_wrt (\<lambda>a b. topic ! a \<ge> topic ! b) (idxs @ drop n xs)"
      by (subst (asm) split)
    then have "\<forall>x \<in> set idxs. \<forall>y \<in> set (drop n xs). topic ! x \<ge> topic ! y"
      unfolding sorted_wrt_append by (elim conjE)
    with a jd show ?thesis by blast
  qed
  have "spec_top_terms words topic n (map (\<lambda>i. words ! i) idxs)"
    unfolding spec_top_terms_def
  proof (intro exI conjI allI impI ballI)
    show "map (\<lambda>i. words ! i) idxs = map (\<lambda>i. words ! i) idxs" by (rule refl)
    show "distinct idxs" by (rule d)
    show "set idxs \<subseteq> {..<length topic}" by (rule sub)
    show "length idxs = min n (length topic)" by (rule len)
    show "sorted_wrt (\<lambda>a b. topic ! a \<ge> topic ! b) idxs" by (rule s)
    fix j a
    assume "j < length topic" "j \<notin> set idxs" "a \<in> set idxs"
    then show "topic ! j \<le> topic ! a" by (rule top)
  qed
  then show ?thesis
    by (simp only: idxs_def xs_def)
qed

subsection \<open>The loop over the topics\<close>

lemma topics_loop_ok:
  assumes "0 \<le> k"
    and "\<forall>topic \<in> set comps. length topic = length words"
    and "\<forall>topic \<in> set comps. sorts_row argsort topic"
    and "fst ` set acc \<subseteq> topic_key ` {..<idx}"
  shows "topics_loop argsort words k idx comps acc =
     Inr (acc @ map (\<lambda>(i, topic). (topic_key i,
                      map (\<lambda>i. words ! i) (take (nat k) (rev (argsort topic)))))
                  (zip [idx..<idx + length comps] comps))"
  using assms(2,3,4)
proof (induction comps arbitrary: idx acc)
  case Nil
  then show ?case by simp
next
  case (Cons topic comps)
  let ?key = topic_key
  let ?l = "map (\<lambda>i. words ! i) (take (nat k) (rev (argsort topic)))"
  have "length topic = length words" "sorts_row argsort topic"
    using Cons.prems(1,2) by simp_all
  with assms(1) have row: "top_words_list argsort words topic k = Inr ?l"
    by (rule top_words_list_ok)
  have fresh: "?key idx \<notin> fst ` set acc"
  proof
    assume "?key idx \<in> fst ` set acc"
    with Cons.prems(3) obtain i where "i < idx" "?key idx = ?key i" by auto
    then show False by (auto dest: topic_key_inj)
  qed
  have step: "dict_set acc (?key idx) ?l = acc @ [(?key idx, ?l)]"
    using fresh by (rule dict_set_fresh)
  have inv: "fst ` set (acc @ [(?key idx, ?l)]) \<subseteq> ?key ` {..<idx + 1}"
    using Cons.prems(3) by (auto simp: less_Suc_eq)
  have rest: "\<forall>topic \<in> set comps. length topic = length words"
    using Cons.prems(1) by simp
  have rest_sorted: "\<forall>topic \<in> set comps. sorts_row argsort topic"
    using Cons.prems(2) by simp
  have upt: "[idx..<idx + length (topic # comps)] = idx # [idx + 1..<idx + 1 + length comps]"
    by (simp add: upt_rec)
  have "topics_loop argsort words k idx (topic # comps) acc =
      topics_loop argsort words k (idx + 1) comps (dict_set acc (?key idx) ?l)"
    by (simp add: row)
  also have "\<dots> = topics_loop argsort words k (idx + 1) comps (acc @ [(?key idx, ?l)])"
    by (simp only: step)
  also have "\<dots> = Inr ((acc @ [(?key idx, ?l)]) @
      map (\<lambda>(i, topic). (?key i, map (\<lambda>i. words ! i) (take (nat k) (rev (argsort topic)))))
        (zip [idx + 1..<idx + 1 + length comps] comps))"
    by (rule Cons.IH [OF rest rest_sorted inv])
  also have "\<dots> = Inr (acc @
      map (\<lambda>(i, topic). (?key i, map (\<lambda>i. words ! i) (take (nat k) (rev (argsort topic)))))
        (zip [idx..<idx + length (topic # comps)] (topic # comps)))"
    by (simp only: upt) simp
  finally show ?case .
qed

text \<open>
  C7 (as amended). When the vectorizer and the topic model are fitted, the components
  having one row per topic and one weight per feature name, \<open>top_words\<close> is not
  negative, and the library's argsort sorts each row, the output maps the keys
  \<^verbatim>\<open>Topic 0\<close> to \<^verbatim>\<open>Topic num_topics-1\<close>, in this order and each once, to the terms of
  the topic: \<open>top_words\<close> terms (all terms of a smaller vocabulary) of highest weight in
  the topic's row, in falling weight order. No order is stated among terms of equal
  weight: it is the one the library's argsort leaves, reversed.
\<close>

theorem topic_terms_by_weight:
  assumes fit: "fit_tfidf (str_messages messages) = Inr (X, words)"
    and lda: "lda_fit num_topics X = Inr components"
    and rows: "length components = nat num_topics"
    and cols: "\<forall>topic \<in> set components. length topic = length words"
    and nonneg: "0 \<le> top_words"
    and sorts: "\<forall>topic \<in> set components. sorts_row argsort topic"
  shows "\<exists>topics.
     topic_modeling_analysis fit_tfidf lda_fit argsort messages num_topics top_words
       = Inr topics \<and>
     map fst topics = map topic_key [0..<nat num_topics] \<and>
     distinct (map fst topics) \<and>
     (\<forall>k < nat num_topics.
        spec_top_terms words (components ! k) (nat top_words) (snd (topics ! k)))"
proof -
  let ?key = topic_key
  let ?terms = "\<lambda>topic. map (\<lambda>i. words ! i) (take (nat top_words) (rev (argsort topic)))"
  let ?topics = "map (\<lambda>(i, topic). (?key i, ?terms topic)) (zip [0..<length components] components)"
  have "topics_loop argsort words top_words 0 components [] = Inr ([] @ ?topics)"
    using topics_loop_ok [OF nonneg cols sorts, of "[]" 0] by simp
  then have res:
    "topic_modeling_analysis fit_tfidf lda_fit argsort messages num_topics top_words
      = Inr ?topics"
    by (simp add: topic_modeling_analysis_def fit lda)
  have keys: "map fst ?topics = map ?key [0..<nat num_topics]"
    using map_fst_zip_keys [of "[0..<length components]" components ?key ?terms]
    by (simp add: rows)
  have dist: "distinct (map fst ?topics)"
    unfolding keys
    by (auto simp: distinct_map inj_on_def dest: topic_key_inj)
  have terms: "spec_top_terms words (components ! k) (nat top_words) (snd (?topics ! k))"
    if "k < nat num_topics" for k
  proof -
    from that rows have k: "k < length components" by simp
    then have "components ! k \<in> set components" by simp
    with sorts have "sorts_row argsort (components ! k)" by blast
    then have "spec_top_terms words (components ! k) (nat top_words) (?terms (components ! k))"
      by (rule top_indices_spec)
    moreover from k have "snd (?topics ! k) = ?terms (components ! k)" by simp
    ultimately show ?thesis by simp
  qed
  show ?thesis
  proof (intro exI conjI allI impI)
    show "topic_modeling_analysis fit_tfidf lda_fit argsort messages num_topics top_words
        = Inr ?topics"
      by (rule res)
    show "map fst ?topics = map topic_key [0..<nat num_topics]"
      by (rule keys)
    show "distinct (map fst ?topics)"
      by (rule dist)
    fix k
    assume "k < nat num_topics"
    then show "spec_top_terms words (components ! k) (nat top_words) (snd (?topics ! k))"
      by (rule terms)
  qed
qed

lemma topic_key_0: "topic_key 0 = ''Topic 0''"
  by (simp add: topic_key_def str_nat.simps [of 0])

lemma topic_key_1: "topic_key (Suc 0) = ''Topic 1''"
  by (simp add: topic_key_def str_nat.simps [of "Suc 0"])

lemma tied_run:
  "topic_modeling_analysis three_terms_tfidf tied_lda stable_argsort
     [JStr ''apple banana cherry''] 2 2
     = Inr [(''Topic 0'', [''banana'', ''apple'']), (''Topic 1'', [''cherry'', ''apple''])]"
  by (simp add: topic_modeling_analysis_def three_terms_tfidf_def tied_lda_def
        top_words_list_def stable_argsort_def slice_back_def topic_key_0 topic_key_1 upt_rec)

theorem topic_terms_by_weight_witness:
  "three_terms_tfidf (str_messages [JStr ''apple banana cherry''])
     = Inr ((), [''apple'', ''banana'', ''cherry'']) \<and>
   tied_lda 2 () = Inr [[1 / 2, 1 / 2, 1 / 10], [3 / 10, 2 / 10, 9 / 10]] \<and>
   topic_modeling_analysis three_terms_tfidf tied_lda stable_argsort
     [JStr ''apple banana cherry''] 2 2
     = Inr [(''Topic 0'', [''banana'', ''apple'']), (''Topic 1'', [''cherry'', ''apple''])] \<and>
   spec_top_terms [''apple'', ''banana'', ''cherry''] [1 / 2, 1 / 2, 1 / 10] 2
     [''banana'', ''apple''] \<and>
   spec_top_terms [''apple'', ''banana'', ''cherry''] [3 / 10, 2 / 10, 9 / 10] 2
     [''cherry'', ''apple'']"
proof -
  let ?words = "[''apple'', ''banana'', ''cherry'']"
  let ?comps = "[[1 / 2, 1 / 2, 1 / 10], [3 / 10, 2 / 10, 9 / 10 :: real]]"
  have fit: "three_terms_tfidf (str_messages [JStr ''apple banana cherry'']) = Inr ((), ?words)"
    by (simp add: three_terms_tfidf_def)
  have lda: "tied_lda 2 () = Inr ?comps"
    by (simp add: tied_lda_def)
  have rows: "length ?comps = nat 2" by simp
  have cols: "\<forall>topic \<in> set ?comps. length topic = length ?words" by simp
  have nonneg: "(0::int) \<le> 2" by simp
  have sorts: "\<forall>topic \<in> set ?comps. sorts_row stable_argsort topic"
    by (simp add: sorts_row_stable_argsort)
  from topic_terms_by_weight
    [where fit_tfidf = three_terms_tfidf and lda_fit = tied_lda and num_topics = 2
       and top_words = 2 and messages = "[JStr ''apple banana cherry'']"
       and X = "()" and words = ?words and components = ?comps
       and argsort = stable_argsort,
     OF fit lda rows cols nonneg sorts]
  obtain topics where
    "topic_modeling_analysis three_terms_tfidf tied_lda stable_argsort
     [JStr ''apple banana cherry''] 2 2
       = Inr topics"
    and tops: "\<forall>k < nat 2. spec_top_terms ?words (?comps ! k) (nat 2) (snd (topics ! k))"
    by blast
  with tied_run have topics:
    "topics = [(''Topic 0'', [''banana'', ''apple'']), (''Topic 1'', [''cherry'', ''apple''])]"
    by simp
  have "spec_top_terms ?words (?comps ! 0) (nat 2) (snd (topics ! 0))"
    using tops [rule_format, of 0] by simp
  moreover have "spec_top_terms ?words (?comps ! 1) (nat 2) (snd (topics ! 1))"
    using tops [rule_format, of 1] by simp
  ultimately have "spec_top_terms ?words [1 / 2, 1 / 2, 1 / 10] 2 [''banana'', ''apple'']"
    and "spec_top_terms ?words [3 / 10, 2 / 10, 9 / 10] 2 [''cherry'', ''apple'']"
    by (simp_all add: topics)
  with topics fit lda tied_run show ?thesis
    by simp
qed

text \<open>
  Terms of equal weight need not be listed in vocabulary index order: the slice reverses
  the ascending argsort, so on this row of three weights, which the sort leaves with
  its equal weights in index order, of \<^verbatim>\<open>apple\<close> (index 0) and \<^verbatim>\<open>banana\<close> (index 1), both
  of weight \<open>0.5\<close>, \<^verbatim>\<open>banana\<close> comes first.
\<close>

theorem ties_in_reverse_index_order:
  "topic_modeling_analysis three_terms_tfidf tied_lda stable_argsort
     [JStr ''apple banana cherry''] 2 2
     = Inr [(''Topic 0'', [''banana'', ''apple'']), (''Topic 1'', [''cherry'', ''apple''])] \<and>
   \<not> claimed_top_terms [''apple'', ''banana'', ''cherry''] [1 / 2, 1 / 2, 1 / 10] 2
       [''banana'', ''apple'']"
proof -
  let ?words = "[''apple'', ''banana'', ''cherry'']"
  let ?topic = "[1 / 2, 1 / 2, 1 / 10 :: real]"
  have "\<not> claimed_top_terms ?words ?topic 2 [''banana'', ''apple'']"
  proof
    assume c: "claimed_top_terms ?words ?topic 2 [''banana'', ''apple'']"
    from c [unfolded claimed_top_terms_def]
    obtain idxs where m: "[''banana'', ''apple''] = map (\<lambda>i. ?words ! i) idxs"
      and sub0: "set idxs \<subseteq> {..<length ?topic}"
      and len: "length idxs = min 2 (length ?topic)"
      and srt: "sorted_wrt (ranks_first ?topic) idxs"
      by (elim exE conjE) (rule that)
    from sub0 have sub: "set idxs \<subseteq> {..<3}" by (simp add: numeral_3_eq_3)
    from m obtain a b where idxs: "idxs = [a, b]"
      and a: "?words ! a = ''banana''" and b: "?words ! b = ''apple''"
      by (cases idxs; cases "tl idxs"; cases "tl (tl idxs)") auto
    from sub idxs have "a < 3" "b < 3" by auto
    then have "a = 0 \<or> a = 1 \<or> a = 2" "b = 0 \<or> b = 1 \<or> b = 2" by auto
    with a b have "a = 1" "b = 0" by auto
    with srt idxs show False
      by (simp add: ranks_first_def)
  qed
  with tied_run show ?thesis by simp
qed

end
